theory Spec2Isabelle
  imports Complex_Main
begin

section \<open>The countries REST service of app.py\<close>

text \<open>
  The program keeps one global list \<open>countries\<close> of Python dicts and serves seven
  routes over it. Each handler is modelled as a function from the list (and the
  request's data) to an outcome and the list afterwards. An outcome is a returned
  response, an \<open>abort(code)\<close>, or an uncaught Python exception; the registered
  \<open>handle_exception\<close> renders the last two.
\<close>

subsection \<open>Values, dicts and JSON decoding\<close>

text \<open>
  A decoded JSON value, as \<open>json.loads\<close> produces it: \<open>None\<close>, \<open>bool\<close>, \<open>int\<close>,
  \<open>float\<close> (the real number the double stands for), \<open>str\<close>, \<open>list\<close> and \<open>dict\<close>.
  The same type is used for the JSON document of a request body, where \<open>JObj\<close> holds
  the members in document order and a name may occur twice.
\<close>

datatype jvalue =
    JNull
  | JBool bool
  | JInt int
  | JFloat real
  | JStr string
  | JArr "jvalue list"
  | JObj "(string \<times> jvalue) list"

text \<open>A dict: keys in insertion order, each key once.\<close>

type_synonym dict = "(string \<times> jvalue) list"

type_synonym store = "dict list"

definition dict_keys :: "dict \<Rightarrow> string list" where
  "dict_keys d = map fst d"

text \<open>\<open>d[k]\<close>; \<open>None\<close> stands for KeyError.\<close>

definition getitem :: "dict \<Rightarrow> string \<Rightarrow> jvalue option" where
  "getitem d k = map_of d k"

text \<open>\<open>d[k] = v\<close>: an existing key keeps its place, a new key goes to the end.\<close>

fun setitem :: "dict \<Rightarrow> string \<Rightarrow> jvalue \<Rightarrow> dict" where
  "setitem [] k v = [(k, v)]"
| "setitem ((k', v') # d) k v =
     (if k' = k then (k', v) # d else (k', v') # setitem d k v)"

text \<open>
  The dict that \<open>json.loads\<close> builds from an object's members: they are stored one
  after the other, so of a repeated name the last value stays.
\<close>

definition py_dict :: "(string \<times> jvalue) list \<Rightarrow> dict" where
  "py_dict ms = foldl (\<lambda>d (k, v). setitem d k v) [] ms"

fun loads :: "jvalue \<Rightarrow> jvalue" where
  "loads (JArr xs) = JArr (map loads xs)"
| "loads (JObj ms) = JObj (py_dict (map (\<lambda>(k, v). (k, loads v)) ms))"
| "loads v = v"

subsection \<open>Outcomes of a handler\<close>

datatype pyexc = IndexError | KeyError | ValueError | TypeError

text \<open>
  \<open>Abort code\<close> is \<open>abort(code)\<close>, or an abort of the framework, whose description
  is a string. \<open>AbortError code\<close> is \<open>abort(code, e)\<close> with an exception object
  \<open>e\<close> as description: that is how \<open>expects_json\<close> reports a body that violates
  the schema (\<open>e\<close> is the validator's ValidationError).
\<close>

datatype outcome =
    Response nat jvalue
  | Abort nat
  | AbortError nat
  | Fault pyexc

text \<open>
  The status of the reply (lines 136-160): a response carries its own.
  \<open>handle_exception\<close> keeps the code of an HTTPException and puts its description
  through \<open>json.dumps\<close>; on a description that is an exception object that call
  raises TypeError inside the handler, and the reply is 500. Every exception that is
  not an HTTPException is answered with 500.
\<close>

fun status :: "outcome \<Rightarrow> nat" where
  "status (Response code b) = code"
| "status (Abort code) = code"
| "status (AbortError code) = 500"
| "status (Fault e) = 500"

text \<open>
  A request body, as \<open>request.json\<close> sees it: its content type is not JSON (the
  framework aborts, with 415 by the comment on line 93 and the specification), or
  it is announced as JSON and does not parse (the framework aborts with 400), or it
  is a JSON document.
\<close>

datatype body = NotJson | Unparsable | Json jvalue

text \<open>
  \<open>int(parm_id)\<close> of the URL segment: the handlers use the segment only through this
  conversion, so they are given its result, \<open>None\<close> where \<open>int\<close> raises ValueError.
\<close>

type_synonym parm = "int option"

subsection \<open>The store and the id allocator (lines 73-81)\<close>

definition countries0 :: store where
  "countries0 =
    [[(''id'', JInt 1), (''name'', JStr ''Thailand''), (''capital'', JStr ''Bangkok''),
      (''area'', JInt 513120)],
     [(''id'', JInt 2), (''name'', JStr ''Australia''), (''capital'', JStr ''Canberra''),
      (''area'', JInt 7617930)],
     [(''id'', JInt 3), (''name'', JStr ''Egypt''), (''capital'', JStr ''Cairo''),
      (''area'', JInt 1010408)]]"

text \<open>The integer under \<open>"id"\<close>, when the record has one.\<close>

definition int_id :: "dict \<Rightarrow> int option" where
  "int_id c = (case getitem c ''id'' of Some (JInt n) \<Rightarrow> Some n | _ \<Rightarrow> None)"

text \<open>
  The generator \<open>country["id"] for country in countries\<close>: the ids in store
  order, KeyError at a record without \<open>"id"\<close>. The handlers store integer ids only
  (\<open>reachable_store_ok\<close> below), and the model covers \<open>max\<close> on integers only: an
  id of another type ends the model's allocator with TypeError, whatever Python's
  \<open>max\<close> would make of it.
\<close>

fun ids :: "store \<Rightarrow> pyexc + int list" where
  "ids [] = Inr []"
| "ids (c # cs) =
     (case getitem c ''id'' of
        None \<Rightarrow> Inl KeyError
      | Some (JInt n) \<Rightarrow> (case ids cs of Inl e \<Rightarrow> Inl e | Inr ns \<Rightarrow> Inr (n # ns))
      | Some v \<Rightarrow> Inl TypeError)"

text \<open>\<open>max\<close> of a sequence; it raises ValueError on an empty one.\<close>

fun py_max :: "int list \<Rightarrow> int option" where
  "py_max [] = None"
| "py_max (n # ns) = Some (foldl max n ns)"

definition find_next_id :: "store \<Rightarrow> pyexc + int" where
  "find_next_id countries =
     (case ids countries of
        Inl e \<Rightarrow> Inl e
      | Inr ns \<Rightarrow> (case py_max ns of None \<Rightarrow> Inl ValueError | Some m \<Rightarrow> Inr (m + 1)))"

subsection \<open>Validation shared by the write handlers\<close>

definition expected_payload_attributes :: "string list" where
  "expected_payload_attributes = [''name'', ''capital'', ''area'']"

text \<open>
  \<open>for key in request.json\<close>: a dict yields its keys, a list its elements, a string
  its characters; any other value is not iterable (TypeError).
\<close>

fun py_iter :: "jvalue \<Rightarrow> jvalue list option" where
  "py_iter (JObj d) = Some (map JStr (dict_keys d))"
| "py_iter (JArr xs) = Some xs"
| "py_iter (JStr s) = Some (map (\<lambda>ch. JStr [ch]) s)"
| "py_iter v = None"

text \<open>
  The key loop (lines 113-116, 403-405, 435-437): \<open>abort(422)\<close> at the first key
  that is not one of the expected attributes; \<open>None\<close> when the loop runs through.
\<close>

fun check_keys :: "jvalue list \<Rightarrow> outcome option" where
  "check_keys [] = None"
| "check_keys (key # rest) =
     (if key \<notin> set (map JStr expected_payload_attributes) then Some (Abort 422)
      else check_keys rest)"

text \<open>
  \<open>countries[i]["id"] == int(parm_id)\<close>: the subscript is evaluated first, then
  the conversion, then the comparison. Python compares an int with a bool or a
  float by value and with anything else as unequal.
\<close>

fun py_eq_int :: "jvalue \<Rightarrow> int \<Rightarrow> bool" where
  "py_eq_int (JInt n) k = (n = k)"
| "py_eq_int (JBool b) k = ((if b then 1 else 0) = k)"
| "py_eq_int (JFloat r) k = (r = of_int k)"
| "py_eq_int v k = False"

definition id_matches :: "dict \<Rightarrow> parm \<Rightarrow> pyexc + bool" where
  "id_matches country parm_id =
     (case getitem country ''id'' of
        None \<Rightarrow> Inl KeyError
      | Some v \<Rightarrow> (case parm_id of None \<Rightarrow> Inl ValueError | Some k \<Rightarrow> Inr (py_eq_int v k)))"

subsection \<open>The read handlers\<close>

text \<open>Lines 84-86.\<close>

definition get_countries :: "store \<Rightarrow> outcome" where
  "get_countries countries = Response 200 (JArr (map JObj countries))"

text \<open>Lines 247-249: \<open>countries[1]\<close> raises IndexError on a shorter list.\<close>

fun get_country :: "store \<Rightarrow> outcome" where
  "get_country (c0 # c1 # cs) = Response 200 (JObj c1)"
| "get_country cs = Fault IndexError"

text \<open>Lines 382-393.\<close>

fun get_country_by_id :: "store \<Rightarrow> parm \<Rightarrow> outcome" where
  "get_country_by_id [] parm_id = Abort 404"
| "get_country_by_id (country # rest) parm_id =
     (case id_matches country parm_id of
        Inl e \<Rightarrow> Fault e
      | Inr True \<Rightarrow> Response 200 (JObj country)
      | Inr False \<Rightarrow> get_country_by_id rest parm_id)"

subsection \<open>POST /countries (lines 92-131)\<close>

text \<open>
  The decorator \<open>expects_json(schema)\<close> runs before the handler's body. It aborts
  with 400 and a message when the body decodes to \<open>None\<close>, and with 400 and the
  validator's error object unless the decoded body satisfies the schema of lines
  63-71: it is an object, \<open>name\<close> and \<open>capital\<close> are present and strings, and
  \<open>area\<close>, when present, is a number (an int or a float, not a bool). Other
  members are not constrained.
\<close>

fun is_string :: "jvalue \<Rightarrow> bool" where
  "is_string (JStr s) = True"
| "is_string v = False"

fun is_number :: "jvalue \<Rightarrow> bool" where
  "is_number (JInt n) = True"
| "is_number (JFloat r) = True"
| "is_number v = False"

definition schema_valid :: "dict \<Rightarrow> bool" where
  "schema_valid d =
     ((case getitem d ''name'' of None \<Rightarrow> False | Some v \<Rightarrow> is_string v) \<and>
      (case getitem d ''capital'' of None \<Rightarrow> False | Some v \<Rightarrow> is_string v) \<and>
      (case getitem d ''area'' of None \<Rightarrow> True | Some v \<Rightarrow> is_number v))"

text \<open>
  The handler: the key loop, the count check against \<open>len(countries[0].keys())\<close>
  (IndexError on an empty store), then \<open>country["id"] = _find_next_id()\<close> on the
  payload dict itself, which is appended and returned with 201. \<open>len(payload)\<close>
  is the length of the dict.
\<close>

definition add_country :: "store \<Rightarrow> body \<Rightarrow> outcome \<times> store" where
  "add_country countries b =
     (case b of
        NotJson \<Rightarrow> (Abort 415, countries)
      | Unparsable \<Rightarrow> (Abort 400, countries)
      | Json doc \<Rightarrow>
          (case loads doc of
             JNull \<Rightarrow> (Abort 400, countries)
           | JObj payload \<Rightarrow>
               (if \<not> schema_valid payload then (AbortError 400, countries)
                else
                  (case check_keys (map JStr (dict_keys payload)) of
                     Some a \<Rightarrow> (a, countries)
                   | None \<Rightarrow>
                       (case countries of
                          [] \<Rightarrow> (Fault IndexError, countries)
                        | c0 # cs \<Rightarrow>
                            (if length payload + 1 \<noteq> length (dict_keys c0)
                             then (Abort 400, countries)
                             else
                               (case find_next_id countries of
                                  Inl e \<Rightarrow> (Fault e, countries)
                                | Inr n \<Rightarrow>
                                    (let country = setitem payload ''id'' (JInt n)
                                     in (Response 201 (JObj country),
                                         countries @ [country])))))))
           | v \<Rightarrow> (AbortError 400, countries)))"

subsection \<open>PUT and PATCH /countries/<parm_id> (lines 397-457)\<close>

text \<open>
  \<open>for key in payload: countries[i][key] = payload[key]\<close>. The record is changed
  key by key, so the function returns the record as it stands when the loop ends
  or raises. It runs only after the key loop, so every item of the payload is the
  name of an expected attribute: on a dict the subscript \<open>payload[key]\<close> finds the
  value; on a list or a string it raises TypeError at the first item (a str is not
  an index).
\<close>

fun assign_keys :: "dict \<Rightarrow> dict \<Rightarrow> string list \<Rightarrow> pyexc option \<times> dict" where
  "assign_keys country payload [] = (None, country)"
| "assign_keys country payload (key # rest) =
     (case getitem payload key of
        None \<Rightarrow> (Some KeyError, country)
      | Some v \<Rightarrow> assign_keys (setitem country key v) payload rest)"

fun assign_all :: "dict \<Rightarrow> jvalue \<Rightarrow> pyexc option \<times> dict" where
  "assign_all country (JObj payload) = assign_keys country payload (dict_keys payload)"
| "assign_all country (JArr []) = (None, country)"
| "assign_all country (JStr []) = (None, country)"
| "assign_all country v = (Some TypeError, country)"

text \<open>
  The scan \<open>for i in range(len(countries))\<close> of both handlers (lines 415-425 and
  447-457, the same text): the first record whose id matches is updated and
  returned with 200; \<open>abort(404)\<close> after the loop. The result's second component is
  the list afterwards.
\<close>

fun update_loop :: "store \<Rightarrow> parm \<Rightarrow> jvalue \<Rightarrow> outcome \<times> store" where
  "update_loop [] parm_id payload = (Abort 404, [])"
| "update_loop (country # rest) parm_id payload =
     (case id_matches country parm_id of
        Inl e \<Rightarrow> (Fault e, country # rest)
      | Inr True \<Rightarrow>
          (case assign_all country payload of
             (Some e, country') \<Rightarrow> (Fault e, country' # rest)
           | (None, country') \<Rightarrow> (Response 200 (JObj country'), country' # rest))
      | Inr False \<Rightarrow>
          (case update_loop rest parm_id payload of (r, rest') \<Rightarrow> (r, country # rest')))"

text \<open>
  Both handlers have no schema decorator, so the payload is any JSON value.
  \<open>len(payload)\<close> is the number of items the key loop ran over. PUT aborts with 400
  unless \<open>len(payload) + 1\<close> equals \<open>len(countries[0].keys())\<close>, PATCH when it is
  greater.
\<close>

definition put_country :: "store \<Rightarrow> parm \<Rightarrow> body \<Rightarrow> outcome \<times> store" where
  "put_country countries parm_id b =
     (case b of
        NotJson \<Rightarrow> (Abort 415, countries)
      | Unparsable \<Rightarrow> (Abort 400, countries)
      | Json doc \<Rightarrow>
          (let payload = loads doc in
           case py_iter payload of
             None \<Rightarrow> (Fault TypeError, countries)
           | Some keys \<Rightarrow>
               (case check_keys keys of
                  Some a \<Rightarrow> (a, countries)
                | None \<Rightarrow>
                    (case countries of
                       [] \<Rightarrow> (Fault IndexError, countries)
                     | c0 # cs \<Rightarrow>
                         (if length keys + 1 \<noteq> length (dict_keys c0)
                          then (Abort 400, countries)
                          else update_loop countries parm_id payload)))))"

definition patch_country :: "store \<Rightarrow> parm \<Rightarrow> body \<Rightarrow> outcome \<times> store" where
  "patch_country countries parm_id b =
     (case b of
        NotJson \<Rightarrow> (Abort 415, countries)
      | Unparsable \<Rightarrow> (Abort 400, countries)
      | Json doc \<Rightarrow>
          (let payload = loads doc in
           case py_iter payload of
             None \<Rightarrow> (Fault TypeError, countries)
           | Some keys \<Rightarrow>
               (case check_keys keys of
                  Some a \<Rightarrow> (a, countries)
                | None \<Rightarrow>
                    (case countries of
                       [] \<Rightarrow> (Fault IndexError, countries)
                     | c0 # cs \<Rightarrow>
                         (if length keys + 1 > length (dict_keys c0)
                          then (Abort 400, countries)
                          else update_loop countries parm_id payload)))))"

subsection \<open>DELETE /countries/<parm_id> (lines 461-474)\<close>

text \<open>The first record whose id matches is deleted; the handler returns \<open>{}, 204\<close>.\<close>

fun delete_country :: "store \<Rightarrow> parm \<Rightarrow> outcome \<times> store" where
  "delete_country [] parm_id = (Abort 404, [])"
| "delete_country (country # rest) parm_id =
     (case id_matches country parm_id of
        Inl e \<Rightarrow> (Fault e, country # rest)
      | Inr True \<Rightarrow> (Response 204 (JObj []), rest)
      | Inr False \<Rightarrow>
          (case delete_country rest parm_id of (r, rest') \<Rightarrow> (r, country # rest')))"

subsection \<open>Routing\<close>

datatype request =
    GET_countries
  | GET_country
  | GET_country_by_id parm
  | POST_countries body
  | PUT_country parm body
  | PATCH_country parm body
  | DELETE_country parm

fun handle :: "store \<Rightarrow> request \<Rightarrow> outcome \<times> store" where
  "handle countries GET_countries = (get_countries countries, countries)"
| "handle countries GET_country = (get_country countries, countries)"
| "handle countries (GET_country_by_id parm_id) =
     (get_country_by_id countries parm_id, countries)"
| "handle countries (POST_countries b) = add_country countries b"
| "handle countries (PUT_country parm_id b) = put_country countries parm_id b"
| "handle countries (PATCH_country parm_id b) = patch_country countries parm_id b"
| "handle countries (DELETE_country parm_id) = delete_country countries parm_id"

text \<open>The store after a sequence of requests.\<close>

fun run :: "store \<Rightarrow> request list \<Rightarrow> store" where
  "run countries [] = countries"
| "run countries (r # rs) = run (snd (handle countries r)) rs"

subsection \<open>The data model's invariant\<close>

text \<open>
  A country record has exactly the keys \<open>id\<close>, \<open>name\<close>, \<open>capital\<close> and \<open>area\<close>, and
  its id is an integer; in a store the ids are pairwise different.
\<close>

definition country_ok :: "dict \<Rightarrow> bool" where
  "country_ok c =
     (distinct (dict_keys c) \<and>
      set (dict_keys c) = {''id'', ''name'', ''capital'', ''area''} \<and>
      int_id c \<noteq> None)"

definition store_ok :: "store \<Rightarrow> bool" where
  "store_ok countries = (list_all country_ok countries \<and> distinct (map int_id countries))"

subsection \<open>The example payload\<close>

text \<open>The payload of the request shown in lines 306-320.\<close>

definition germany :: dict where
  "germany = [(''name'', JStr ''Germany''), (''capital'', JStr ''Berlin''), (''area'', JInt 357022)]"

section \<open>Facts about dicts and the key loop\<close>

lemmas eval_defs = add_country_def put_country_def patch_country_def countries0_def
  py_dict_def dict_keys_def getitem_def expected_payload_attributes_def schema_valid_def
  find_next_id_def int_id_def id_matches_def get_countries_def germany_def Let_def

lemma set_keys_setitem: "set (dict_keys (setitem d k v)) = insert k (set (dict_keys d))"
  by (induction d k v rule: setitem.induct) (auto simp: dict_keys_def)

lemma distinct_keys_setitem:
  "distinct (dict_keys d) \<Longrightarrow> distinct (dict_keys (setitem d k v))"
proof (induction d k v rule: setitem.induct)
  case (1 k v)
  then show ?case by (simp add: dict_keys_def)
next
  case (2 k' v' d k v)
  have "set (map fst (setitem d k v)) = insert k (set (map fst d))"
    using set_keys_setitem [of d k v] by (simp add: dict_keys_def)
  with 2 show ?case by (auto simp: dict_keys_def)
qed

lemma setitem_fresh: "k \<notin> set (dict_keys d) \<Longrightarrow> setitem d k v = d @ [(k, v)]"
  by (induction d k v rule: setitem.induct) (auto simp: dict_keys_def)

lemma getitem_setitem:
  "getitem (setitem d k v) k' = (if k' = k then Some v else getitem d k')"
  by (induction d k v rule: setitem.induct) (auto simp: getitem_def)

lemma keys_setitem_old:
  "k \<in> set (dict_keys d) \<Longrightarrow> dict_keys (setitem d k v) = dict_keys d"
  by (induction d k v rule: setitem.induct) (auto simp: dict_keys_def)

lemma foldl_setitem_keys:
  "set (dict_keys (foldl (\<lambda>d (k, v). setitem d k v) acc ms)) =
     set (dict_keys acc) \<union> set (map fst ms)"
  by (induction ms arbitrary: acc) (auto simp: set_keys_setitem)

lemma foldl_setitem_distinct:
  "distinct (dict_keys acc) \<Longrightarrow>
     distinct (dict_keys (foldl (\<lambda>d (k, v). setitem d k v) acc ms))"
  by (induction ms arbitrary: acc) (auto simp: distinct_keys_setitem)

lemma set_keys_py_dict: "set (dict_keys (py_dict ms)) = set (map fst ms)"
  by (simp add: py_dict_def foldl_setitem_keys) (simp add: dict_keys_def)

lemma distinct_keys_py_dict: "distinct (dict_keys (py_dict ms))"
  using foldl_setitem_distinct [of "[]" ms] by (simp add: py_dict_def dict_keys_def)

lemma check_keys_cases: "check_keys ks = None \<or> check_keys ks = Some (Abort 422)"
  by (induction ks) auto

lemma check_keys_None_iff:
  "check_keys (map JStr ks) = None \<longleftrightarrow> set ks \<subseteq> set expected_payload_attributes"
  by (induction ks) auto

lemma length_le_3:
  assumes "distinct ks" "set ks \<subseteq> set expected_payload_attributes"
  shows "length ks \<le> 3"
proof -
  have "card (set ks) \<le> card (set expected_payload_attributes)"
    using assms(2) by (intro card_mono) simp_all
  also have "\<dots> = 3" by (simp add: expected_payload_attributes_def)
  finally show ?thesis using assms(1) by (simp add: distinct_card)
qed

lemma keys_exact:
  assumes "distinct ks" "set ks \<subseteq> set expected_payload_attributes" "length ks = 3"
  shows "set ks = set expected_payload_attributes"
proof -
  have "card (set ks) = 3" using assms by (simp add: distinct_card)
  moreover have "card (set expected_payload_attributes) = 3"
    by (simp add: expected_payload_attributes_def)
  ultimately show ?thesis using assms(2)
    by (intro card_subset_eq) simp_all
qed

section \<open>A request that fails leaves the store as it was\<close>

lemma assign_keys_ok:
  "set ks \<subseteq> set (dict_keys payload) \<Longrightarrow> fst (assign_keys country payload ks) = None"
proof (induction ks arbitrary: country)
  case Nil
  then show ?case by simp
next
  case (Cons k ks)
  then have "k \<in> fst ` set payload" by (simp add: dict_keys_def)
  then have "map_of payload k \<noteq> None" by (simp add: map_of_eq_None_iff)
  then obtain v where "getitem payload k = Some v" by (auto simp: getitem_def)
  with Cons show ?case by simp
qed

lemma assign_all_unchanged_on_error:
  "assign_all country payload = (Some e, country') \<Longrightarrow> country' = country"
proof (cases payload)
  case (JObj p)
  assume a: "assign_all country payload = (Some e, country')"
  have "fst (assign_keys country p (dict_keys p)) = None" by (rule assign_keys_ok) simp
  with JObj a show ?thesis by simp
next
  case (JArr xs)
  assume "assign_all country payload = (Some e, country')"
  with JArr show ?thesis by (cases xs) auto
next
  case (JStr s)
  assume "assign_all country payload = (Some e, country')"
  with JStr show ?thesis by (cases s) auto
qed auto

lemma update_loop_unchanged:
  "update_loop countries parm_id payload = (r, countries') \<Longrightarrow>
     (\<forall>b. r \<noteq> Response 200 b) \<Longrightarrow> countries' = countries"
proof (induction countries parm_id payload arbitrary: r countries' rule: update_loop.induct)
  case (1 parm_id payload)
  then show ?case by simp
next
  case (2 country rest parm_id payload)
  show ?case
  proof (cases "id_matches country parm_id")
    case (Inl e)
    with 2 show ?thesis by simp
  next
    case (Inr m)
    show ?thesis
    proof (cases m)
      case True
      obtain x c' where ac: "assign_all country payload = (x, c')" by (cases "assign_all country payload")
      show ?thesis
      proof (cases x)
        case None
        with 2 Inr True ac show ?thesis by auto
      next
        case (Some e)
        with ac have "c' = country" by (auto dest: assign_all_unchanged_on_error)
        with 2 Inr True ac Some show ?thesis by auto
      qed
    next
      case False
      obtain r1 rest1 where rec: "update_loop rest parm_id payload = (r1, rest1)"
        by (cases "update_loop rest parm_id payload")
      with 2 Inr False have "r = r1" "countries' = country # rest1" by auto
      moreover from 2 Inr False rec \<open>r = r1\<close> have "rest1 = rest" by auto
      ultimately show ?thesis by simp
    qed
  qed
qed

lemma delete_country_unchanged:
  "delete_country countries parm_id = (r, countries') \<Longrightarrow>
     r \<noteq> Response 204 (JObj []) \<Longrightarrow> countries' = countries"
proof (induction countries parm_id arbitrary: r countries' rule: delete_country.induct)
  case (1 parm_id)
  then show ?case by simp
next
  case (2 country rest parm_id)
  show ?case
  proof (cases "id_matches country parm_id")
    case (Inl e)
    with 2 show ?thesis by simp
  next
    case (Inr m)
    show ?thesis
    proof (cases m)
      case True
      with 2 Inr show ?thesis by auto
    next
      case False
      obtain r1 rest1 where rec: "delete_country rest parm_id = (r1, rest1)"
        by (cases "delete_country rest parm_id")
      with 2 Inr False have "r = r1" "countries' = country # rest1" by auto
      moreover from 2 Inr False rec \<open>r = r1\<close> have "rest1 = rest" by auto
      ultimately show ?thesis by simp
    qed
  qed
qed

lemma add_country_unchanged:
  "add_country countries b = (r, countries') \<Longrightarrow>
     (\<forall>x. r \<noteq> Response 201 x) \<Longrightarrow> countries' = countries"
  by (auto simp: add_country_def Let_def
      split: body.splits jvalue.splits if_splits option.splits list.splits sum.splits)

lemma put_country_unchanged:
  "put_country countries parm_id b = (r, countries') \<Longrightarrow>
     (\<forall>x. r \<noteq> Response 200 x) \<Longrightarrow> countries' = countries"
  by (auto simp: put_country_def Let_def simp del: update_loop.simps
      dest: update_loop_unchanged split: body.splits if_splits option.splits list.splits)

lemma patch_country_unchanged:
  "patch_country countries parm_id b = (r, countries') \<Longrightarrow>
     (\<forall>x. r \<noteq> Response 200 x) \<Longrightarrow> countries' = countries"
  by (auto simp: patch_country_def Let_def simp del: update_loop.simps
      dest: update_loop_unchanged split: body.splits if_splits option.splits list.splits)

section \<open>The claims on validation and atomicity\<close>

lemma keys_map_loads: "map fst (map (\<lambda>(k, v). (k, loads v)) ms) = map fst ms"
  by (induction ms) auto

lemma loads_JObj_keys:
  "loads (JObj ms) = JObj payload \<Longrightarrow>
     set (dict_keys payload) = set (map fst ms) \<and> distinct (dict_keys payload)"
proof -
  assume "loads (JObj ms) = JObj payload"
  then have p: "payload = py_dict (map (\<lambda>(k, v). (k, loads v)) ms)" by simp
  have "set (dict_keys payload) = set (map fst (map (\<lambda>(k, v). (k, loads v)) ms))"
    unfolding p by (rule set_keys_py_dict)
  then have "set (dict_keys payload) = set (map fst ms)" by (simp only: keys_map_loads)
  moreover have "distinct (dict_keys payload)" unfolding p by (rule distinct_keys_py_dict)
  ultimately show ?thesis by simp
qed

text \<open>
  C7. A PATCH whose JSON object has a member name outside \<open>name\<close>, \<open>capital\<close>,
  \<open>area\<close> is answered with 422, whatever the other members, the store and the
  id in the URL are; the store stays as it was.
\<close>

theorem patch_unknown_key_422:
  assumes "key \<in> set (map fst ms)" and "key \<notin> set expected_payload_attributes"
  shows "patch_country countries parm_id (Json (JObj ms)) = (Abort 422, countries)"
proof -
  obtain payload where p: "loads (JObj ms) = JObj payload" by simp
  then have "set (dict_keys payload) = set (map fst ms)" by (rule loads_JObj_keys [THEN conjunct1])
  with assms have "\<not> set (dict_keys payload) \<subseteq> set expected_payload_attributes" by auto
  then have "check_keys (map JStr (dict_keys payload)) \<noteq> None"
    by (simp add: check_keys_None_iff)
  then have "check_keys (map JStr (dict_keys payload)) = Some (Abort 422)"
    using check_keys_cases [of "map JStr (dict_keys payload)"] by auto
  with p show ?thesis by (simp add: patch_country_def)
qed

theorem patch_unknown_key_422_witness:
  "''population'' \<in> set (map fst [(''name'', JStr ''Siam''), (''population'', JInt 5)]) \<and>
   ''population'' \<notin> set expected_payload_attributes \<and>
   patch_country countries0 (Some 1) (Json (JObj [(''name'', JStr ''Siam''), (''population'', JInt 5)]))
     = (Abort 422, countries0)"
  using patch_unknown_key_422 [of "''population''" "[(''name'', JStr ''Siam''), (''population'', JInt 5)]"
      countries0 "Some 1"]
  by (simp add: expected_payload_attributes_def)

lemma update_loop_status:
  "status (fst (update_loop countries parm_id payload)) \<in> {200, 404, 500}"
proof (induction countries parm_id payload rule: update_loop.induct)
  case (1 parm_id payload)
  show ?case by simp
next
  case (2 country rest parm_id payload)
  then show ?case
    by (auto split: sum.splits bool.splits prod.splits option.splits)
qed

lemma country_ok_length: "country_ok c \<Longrightarrow> length (dict_keys c) = 4"
proof -
  assume "country_ok c"
  then have d: "distinct (dict_keys c)"
    and s: "set (dict_keys c) = {''id'', ''name'', ''capital'', ''area''}"
    by (simp_all add: country_ok_def)
  have "length (dict_keys c) = card (set (dict_keys c))" using d by (simp add: distinct_card)
  also have "\<dots> = 4" by (simp add: s)
  finally show ?thesis .
qed

text \<open>
  C10. In PATCH the 400 branch is dead for JSON objects: a decoded object that passes
  the key loop has at most 3 keys, so on a store of country records (whose first
  record has 4 keys) \<open>len(payload) + 1 > 4\<close> is false and the reply is never 400.
\<close>

theorem patch_never_400:
  assumes ok: "store_ok countries" and p: "loads (JObj ms) = JObj payload"
  shows "(check_keys (map JStr (dict_keys payload)) = None \<longrightarrow> length payload \<le> 3) \<and>
         status (fst (patch_country countries parm_id (Json (JObj ms)))) \<noteq> 400"
proof
  show len: "check_keys (map JStr (dict_keys payload)) = None \<longrightarrow> length payload \<le> 3"
  proof
    assume "check_keys (map JStr (dict_keys payload)) = None"
    then have "set (dict_keys payload) \<subseteq> set expected_payload_attributes"
      by (simp add: check_keys_None_iff)
    moreover have "distinct (dict_keys payload)" using p by (rule loads_JObj_keys [THEN conjunct2])
    ultimately have "length (dict_keys payload) \<le> 3" by (intro length_le_3)
    then show "length payload \<le> 3" by (simp add: dict_keys_def)
  qed
  show "status (fst (patch_country countries parm_id (Json (JObj ms)))) \<noteq> 400"
  proof (cases "check_keys (map JStr (dict_keys payload))")
    case (Some a)
    then have "a = Abort 422" using check_keys_cases [of "map JStr (dict_keys payload)"] by auto
    with Some p show ?thesis by (simp add: patch_country_def)
  next
    case None
    with len have l: "length (dict_keys payload) \<le> 3" by (simp add: dict_keys_def)
    show ?thesis
    proof (cases countries)
      case Nil
      with None p show ?thesis by (simp add: patch_country_def)
    next
      case (Cons c0 cs)
      with ok have "country_ok c0" by (simp add: store_ok_def)
      then have "length (dict_keys c0) = 4" by (rule country_ok_length)
      with None p l Cons
      have "patch_country countries parm_id (Json (JObj ms)) =
              update_loop countries parm_id (JObj payload)"
        by (simp add: patch_country_def del: update_loop.simps)
      then show ?thesis
        using update_loop_status [of countries parm_id "JObj payload"] by auto
    qed
  qed
qed

theorem patch_never_400_witness:
  "store_ok countries0 \<and>
   loads (JObj [(''name'', JStr ''Siam''), (''capital'', JStr ''B''), (''area'', JInt 1)]) =
     JObj [(''name'', JStr ''Siam''), (''capital'', JStr ''B''), (''area'', JInt 1)] \<and>
   check_keys (map JStr (dict_keys [(''name'', JStr ''Siam''), (''capital'', JStr ''B''), (''area'', JInt 1)])) = None \<and>
   length [(''name'', JStr ''Siam''), (''capital'', JStr ''B''), (''area'', JInt 1)] \<le> (3::nat) \<and>
   status (fst (patch_country countries0 (Some 1)
     (Json (JObj [(''name'', JStr ''Siam''), (''capital'', JStr ''B''), (''area'', JInt 1)])))) \<noteq> 400"
proof -
  have ok: "store_ok countries0" by (simp add: store_ok_def country_ok_def eval_defs)
  have p: "loads (JObj [(''name'', JStr ''Siam''), (''capital'', JStr ''B''), (''area'', JInt 1)]) =
     JObj [(''name'', JStr ''Siam''), (''capital'', JStr ''B''), (''area'', JInt 1)]"
    by (simp add: py_dict_def)
  have c: "check_keys (map JStr (dict_keys [(''name'', JStr ''Siam''), (''capital'', JStr ''B''), (''area'', JInt 1)])) = None"
    by (simp add: eval_defs)
  from patch_never_400 [OF ok p, of "Some 1"] ok p c show ?thesis by simp
qed

text \<open>
  The payload of PATCH need not be an object. A JSON array of four recognized names
  passes the key loop as well, and it does reach the 400 branch.
\<close>

lemma patch_array_400:
  "patch_country countries0 (Some 2)
     (Json (JArr [JStr ''name'', JStr ''name'', JStr ''name'', JStr ''name''])) =
     (Abort 400, countries0)"
  by (simp add: eval_defs)

text \<open>
  C5. Every handler is atomic on error: whenever the reply to a request has a status
  of 400 or more (an abort with 415, 400, 422 or 404, and also the 500 of an uncaught
  exception), the store after the request is the store before it. In particular no
  part of a payload is applied before a POST, PUT, PATCH or DELETE aborts.
\<close>

theorem error_leaves_store:
  assumes "handle countries req = (r, countries')" and "400 \<le> status r"
  shows "countries' = countries"
proof (cases req)
  case (POST_countries b)
  with assms show ?thesis by (auto dest: add_country_unchanged)
next
  case (PUT_country parm_id b)
  with assms show ?thesis by (auto dest: put_country_unchanged)
next
  case (PATCH_country parm_id b)
  with assms show ?thesis by (auto dest: patch_country_unchanged)
next
  case (DELETE_country parm_id)
  with assms show ?thesis by (auto dest: delete_country_unchanged)
qed (use assms in auto)

theorem error_leaves_store_witness:
  "handle countries0 (PUT_country (Some 2) (Json (JObj [(''name'', JStr ''Oz'')]))) =
     (Abort 400, countries0) \<and>
   snd (handle countries0 (DELETE_country (Some 9))) = countries0 \<and>
   status (fst (handle countries0 (DELETE_country (Some 9)))) = 404"
proof -
  have 1: "handle countries0 (PUT_country (Some 2) (Json (JObj [(''name'', JStr ''Oz'')]))) =
     (Abort 400, countries0)" by (simp add: eval_defs)
  have 2: "status (fst (handle countries0 (DELETE_country (Some 9)))) = 404"
    by (simp add: eval_defs)
  have "snd (handle countries0 (DELETE_country (Some 9))) = countries0"
    by (rule error_leaves_store [of countries0 "DELETE_country (Some 9)"
          "fst (handle countries0 (DELETE_country (Some 9)))"])
      (use 2 in simp_all)
  with 1 2 show ?thesis by simp
qed

section \<open>DELETE, GET by id and the frame of an update\<close>

lemma id_matches_ok:
  "country_ok c \<Longrightarrow> id_matches c (Some k) = Inr (int_id c = Some k)"
  by (auto simp: country_ok_def int_id_def id_matches_def split: option.splits jvalue.splits)

lemma get_country_by_id_absent:
  "list_all country_ok countries \<Longrightarrow> Some k \<notin> set (map int_id countries) \<Longrightarrow>
     get_country_by_id countries (Some k) = Abort 404"
  by (induction countries) (auto simp: id_matches_ok)

lemma delete_country_first:
  "list_all country_ok countries \<Longrightarrow> Some k \<in> set (map int_id countries) \<Longrightarrow>
     \<exists>pre c post. countries = pre @ c # post \<and> int_id c = Some k \<and>
       Some k \<notin> set (map int_id pre) \<and>
       delete_country countries (Some k) = (Response 204 (JObj []), pre @ post)"
proof (induction countries)
  case Nil
  then show ?case by simp
next
  case (Cons c cs)
  show ?case
  proof (cases "int_id c = Some k")
    case True
    with Cons.prems have "delete_country (c # cs) (Some k) = (Response 204 (JObj []), [] @ cs)"
      by (simp add: id_matches_ok)
    with True have "c # cs = [] @ c # cs \<and> int_id c = Some k \<and>
       Some k \<notin> set (map int_id []) \<and>
       delete_country (c # cs) (Some k) = (Response 204 (JObj []), [] @ cs)" by simp
    then show ?thesis by blast
  next
    case False
    with Cons obtain pre d post where h: "cs = pre @ d # post" "int_id d = Some k"
      "Some k \<notin> set (map int_id pre)"
      "delete_country cs (Some k) = (Response 204 (JObj []), pre @ post)"
      by auto
    with False Cons.prems have "c # cs = (c # pre) @ d # post \<and> int_id d = Some k \<and>
       Some k \<notin> set (map int_id (c # pre)) \<and>
       delete_country (c # cs) (Some k) = (Response 204 (JObj []), (c # pre) @ post)"
      by (simp add: id_matches_ok)
    then show ?thesis by blast
  qed
qed

text \<open>
  C4. On a store of country records with pairwise different ids, DELETE of an id
  that is present removes the first record with that id and nothing else, and
  returns \<open>{}\<close> with 204; a GET of that id on the store afterwards is answered
  with 404. A GET of any id that is not in the store is answered with 404.
\<close>

theorem delete_then_get_404:
  assumes ok: "store_ok countries" and present: "Some k \<in> set (map int_id countries)"
  shows "(\<exists>pre c post. countries = pre @ c # post \<and> int_id c = Some k \<and>
            Some k \<notin> set (map int_id pre) \<and>
            delete_country countries (Some k) = (Response 204 (JObj []), pre @ post) \<and>
            get_country_by_id (pre @ post) (Some k) = Abort 404) \<and>
         (\<forall>j. Some j \<notin> set (map int_id countries) \<longrightarrow>
            get_country_by_id countries (Some j) = Abort 404)"
proof
  from ok have all: "list_all country_ok countries" and dist: "distinct (map int_id countries)"
    by (simp_all add: store_ok_def)
  from delete_country_first [OF all present]
  obtain pre c post where h: "countries = pre @ c # post" "int_id c = Some k"
    "Some k \<notin> set (map int_id pre)"
    "delete_country countries (Some k) = (Response 204 (JObj []), pre @ post)"
    by blast
  from dist h(1,2) have "Some k \<notin> set (map int_id (pre @ post))" by auto
  moreover from all h(1) have "list_all country_ok (pre @ post)" by simp
  ultimately have "get_country_by_id (pre @ post) (Some k) = Abort 404"
    by (intro get_country_by_id_absent)
  with h show "\<exists>pre c post. countries = pre @ c # post \<and> int_id c = Some k \<and>
            Some k \<notin> set (map int_id pre) \<and>
            delete_country countries (Some k) = (Response 204 (JObj []), pre @ post) \<and>
            get_country_by_id (pre @ post) (Some k) = Abort 404"
    by blast
  from all show "\<forall>j. Some j \<notin> set (map int_id countries) \<longrightarrow>
            get_country_by_id countries (Some j) = Abort 404"
    by (simp add: get_country_by_id_absent)
qed

theorem delete_then_get_404_witness:
  "store_ok countries0 \<and> Some 2 \<in> set (map int_id countries0) \<and>
   delete_country countries0 (Some 2) =
     (Response 204 (JObj []), [countries0 ! 0, countries0 ! 2]) \<and>
   get_country_by_id [countries0 ! 0, countries0 ! 2] (Some 2) = Abort 404 \<and>
   Some 7 \<notin> set (map int_id countries0) \<and>
   get_country_by_id countries0 (Some 7) = Abort 404"
proof -
  have ok: "store_ok countries0" by (simp add: store_ok_def country_ok_def eval_defs)
  have present: "Some 2 \<in> set (map int_id countries0)" by (simp add: eval_defs)
  have absent: "Some 7 \<notin> set (map int_id countries0)" by (simp add: eval_defs)
  have d: "delete_country countries0 (Some 2) =
     (Response 204 (JObj []), [countries0 ! 0, countries0 ! 2])" by (simp add: eval_defs)
  from delete_then_get_404 [OF ok present]
  obtain pre post where h: "delete_country countries0 (Some 2) = (Response 204 (JObj []), pre @ post)"
    "get_country_by_id (pre @ post) (Some 2) = Abort 404"
    and g: "get_country_by_id countries0 (Some 7) = Abort 404"
    using absent by blast
  from h(1) d have "pre @ post = [countries0 ! 0, countries0 ! 2]" by simp
  with h(2) ok present absent d g show ?thesis by simp
qed

lemma assign_keys_frame:
  "assign_keys c d ks = (x, c') \<Longrightarrow> set ks \<subseteq> set (dict_keys c) \<Longrightarrow> k' \<notin> set ks \<Longrightarrow>
     dict_keys c' = dict_keys c \<and> getitem c' k' = getitem c k'"
proof (induction c d ks rule: assign_keys.induct)
  case (1 country payload)
  then show ?case by simp
next
  case (2 country payload key rest)
  show ?case
  proof (cases "getitem payload key")
    case None
    with 2 show ?thesis by simp
  next
    case (Some v)
    from 2 have k: "key \<in> set (dict_keys country)" "key \<noteq> k'" by auto
    then have eq: "dict_keys (setitem country key v) = dict_keys country"
      by (simp add: keys_setitem_old)
    from 2 Some have "dict_keys c' = dict_keys (setitem country key v) \<and>
      getitem c' k' = getitem (setitem country key v) k'"
      by (simp add: eq)
    with eq k show ?thesis by (simp add: getitem_setitem)
  qed
qed

lemma assign_keys_id:
  "assign_keys c d ks = (x, c') \<Longrightarrow> k' \<notin> set ks \<Longrightarrow> getitem c' k' = getitem c k'"
proof (induction c d ks rule: assign_keys.induct)
  case (1 country payload)
  then show ?case by simp
next
  case (2 country payload key rest)
  then show ?case by (cases "getitem payload key") (auto simp: getitem_setitem)
qed

lemma id_not_expected: "''id'' \<notin> set expected_payload_attributes"
  by (simp add: expected_payload_attributes_def)

lemma assign_all_id:
  assumes "py_iter payload = Some ks" "check_keys ks = None"
    "assign_all c payload = (x, c')"
  shows "getitem c' ''id'' = getitem c ''id''"
proof (cases payload)
  case (JObj d)
  with assms have "set (dict_keys d) \<subseteq> set expected_payload_attributes"
    by (auto simp: check_keys_None_iff)
  with id_not_expected have "''id'' \<notin> set (dict_keys d)" by auto
  with assms(3) JObj show ?thesis by (auto dest: assign_keys_id)
next
  case (JArr xs)
  with assms(3) show ?thesis by (cases xs) auto
next
  case (JStr s)
  with assms(3) show ?thesis by (cases s) auto
qed (use assms in auto)

lemma check_keys_Some: "check_keys ks = Some a \<Longrightarrow> a = Abort 422"
  using check_keys_cases [of ks] by auto

lemma update_loop_frame:
  "update_loop countries parm_id payload = (Response 200 x, countries') \<Longrightarrow>
   py_iter payload = Some ks \<Longrightarrow> check_keys ks = None \<Longrightarrow>
     \<exists>pre c c' post. countries = pre @ c # post \<and> countries' = pre @ c' # post \<and>
        x = JObj c' \<and> getitem c' ''id'' = getitem c ''id'' \<and>
        id_matches c parm_id = Inr True"
proof (induction countries parm_id payload arbitrary: countries' rule: update_loop.induct)
  case (1 parm_id payload)
  then show ?case by simp
next
  case (2 country rest parm_id payload)
  show ?case
  proof (cases "id_matches country parm_id")
    case (Inl e)
    with 2 show ?thesis by simp
  next
    case (Inr m)
    show ?thesis
    proof (cases m)
      case True
      obtain e c' where ac: "assign_all country payload = (e, c')"
        by (cases "assign_all country payload")
      with 2 Inr True have e: "e = None" and r: "x = JObj c'" "countries' = c' # rest"
        by (auto split: option.splits)
      from assign_all_id [OF "2.prems"(2,3) ac]
      have "getitem c' ''id'' = getitem country ''id''" .
      with r Inr True have "country # rest = [] @ country # rest \<and> countries' = [] @ c' # rest \<and>
        x = JObj c' \<and> getitem c' ''id'' = getitem country ''id'' \<and>
        id_matches country parm_id = Inr True" by simp
      then show ?thesis by blast
    next
      case False
      obtain r1 rest1 where rec: "update_loop rest parm_id payload = (r1, rest1)"
        by (cases "update_loop rest parm_id payload")
      with 2 Inr False have r: "r1 = Response 200 x" "countries' = country # rest1" by auto
      from False have mf: "m = False" by simp
      from "2.IH" [OF Inr mf _ "2.prems"(2,3), of rest1] rec r
      obtain pre c c' post where h: "rest = pre @ c # post" "rest1 = pre @ c' # post"
        "x = JObj c'" "getitem c' ''id'' = getitem c ''id''" "id_matches c parm_id = Inr True"
        by auto
      with r have "country # rest = (country # pre) @ c # post \<and>
        countries' = (country # pre) @ c' # post \<and>
        x = JObj c' \<and> getitem c' ''id'' = getitem c ''id'' \<and>
        id_matches c parm_id = Inr True" by simp
      then show ?thesis by blast
    qed
  qed
qed

text \<open>
  C8. After a 200 of PUT or PATCH the store has the same length, every record but
  the matched one is the same, the matched record is replaced in its place by the
  returned one, and its \<open>id\<close> entry is what it was.
\<close>

theorem update_in_place:
  assumes "put_country countries parm_id b = (Response 200 x, countries') \<or>
           patch_country countries parm_id b = (Response 200 x, countries')"
  shows "length countries' = length countries \<and>
         (\<exists>pre c c' post. countries = pre @ c # post \<and> countries' = pre @ c' # post \<and>
            x = JObj c' \<and> getitem c' ''id'' = getitem c ''id'' \<and>
            id_matches c parm_id = Inr True)"
proof -
  from assms obtain payload ks where
    "update_loop countries parm_id payload = (Response 200 x, countries')"
    "py_iter payload = Some ks" "check_keys ks = None"
    by (auto simp: put_country_def patch_country_def Let_def simp del: update_loop.simps
        dest: check_keys_Some split: body.splits option.splits list.splits if_splits)
  from update_loop_frame [OF this]
  obtain pre c c' post where h: "countries = pre @ c # post \<and> countries' = pre @ c' # post \<and>
        x = JObj c' \<and> getitem c' ''id'' = getitem c ''id'' \<and>
        id_matches c parm_id = Inr True" by blast
  then have "length countries' = length countries" by simp
  with h show ?thesis by blast
qed

theorem update_in_place_witness:
  "patch_country countries0 (Some 2) (Json (JObj [(''capital'', JStr ''Sydney'')])) =
     (Response 200 (JObj [(''id'', JInt 2), (''name'', JStr ''Australia''),
        (''capital'', JStr ''Sydney''), (''area'', JInt 7617930)]),
      [countries0 ! 0,
       [(''id'', JInt 2), (''name'', JStr ''Australia''), (''capital'', JStr ''Sydney''),
        (''area'', JInt 7617930)],
       countries0 ! 2]) \<and>
   length (snd (patch_country countries0 (Some 2) (Json (JObj [(''capital'', JStr ''Sydney'')]))))
     = length countries0"
proof -
  have e: "patch_country countries0 (Some 2) (Json (JObj [(''capital'', JStr ''Sydney'')])) =
     (Response 200 (JObj [(''id'', JInt 2), (''name'', JStr ''Australia''),
        (''capital'', JStr ''Sydney''), (''area'', JInt 7617930)]),
      [countries0 ! 0,
       [(''id'', JInt 2), (''name'', JStr ''Australia''), (''capital'', JStr ''Sydney''),
        (''area'', JInt 7617930)],
       countries0 ! 2])" by (simp add: eval_defs)
  from update_in_place [OF disjI2 [OF e]]
  have "length [countries0 ! 0,
       [(''id'', JInt 2), (''name'', JStr ''Australia''), (''capital'', JStr ''Sydney''),
        (''area'', JInt 7617930)],
       countries0 ! 2] = length countries0" by blast
  with e show ?thesis by simp
qed

section \<open>POST of a valid payload\<close>

lemma ids_ok:
  "list_all country_ok countries \<Longrightarrow>
     \<exists>ns. ids countries = Inr ns \<and> map Some ns = map int_id countries"
proof (induction countries)
  case Nil
  show ?case by simp
next
  case (Cons c cs)
  then obtain ns where ns: "ids cs = Inr ns" "map Some ns = map int_id cs" by auto
  from Cons.prems have "int_id c \<noteq> None" by (simp add: country_ok_def)
  then obtain n where n: "getitem c ''id'' = Some (JInt n)" "int_id c = Some n"
    by (auto simp: int_id_def split: option.splits jvalue.splits)
  with ns have "ids (c # cs) = Inr (n # ns) \<and> map Some (n # ns) = map int_id (c # cs)"
    by simp
  then show ?case by blast
qed

lemma foldl_max_Max: "foldl max (n::int) ns = Max (set (n # ns))"
proof (induction ns arbitrary: n)
  case Nil
  show ?case by simp
next
  case (Cons m ns)
  have "foldl max n (m # ns) = foldl max (max n m) ns" by simp
  also have "\<dots> = Max (set (max n m # ns))" by (rule Cons.IH)
  also have "\<dots> = Max (set (n # m # ns))"
    by (cases ns) (simp_all add: max.assoc)
  finally show ?case .
qed

lemma py_max_Max: "ns \<noteq> [] \<Longrightarrow> py_max ns = Some (Max (set ns))"
proof (cases ns)
  case Nil
  assume "ns \<noteq> []"
  with Nil show ?thesis by simp
next
  case (Cons m ms)
  then show ?thesis by (simp only: py_max.simps foldl_max_Max)
qed

lemma find_next_id_ok:
  assumes "list_all country_ok countries" "countries \<noteq> []"
  shows "\<exists>ns. ids countries = Inr ns \<and> ns \<noteq> [] \<and> map Some ns = map int_id countries \<and>
           find_next_id countries = Inr (Max (set ns) + 1)"
proof -
  from ids_ok [OF assms(1)] obtain ns where ns: "ids countries = Inr ns"
    "map Some ns = map int_id countries" by blast
  from ns(2) assms(2) have ne: "ns \<noteq> []" by auto
  then have "py_max ns = Some (Max (set ns))" by (rule py_max_Max)
  with ns ne show ?thesis by (simp add: find_next_id_def)
qed

lemma payload_exact_length:
  assumes "distinct (dict_keys payload)"
    "set (dict_keys payload) = set expected_payload_attributes"
  shows "length payload = 3"
proof -
  have "length (dict_keys payload) = card (set (dict_keys payload))"
    using assms(1) by (simp add: distinct_card)
  also have "\<dots> = 3" by (simp add: assms(2)) (simp add: expected_payload_attributes_def)
  finally show ?thesis by (simp add: dict_keys_def)
qed

lemma int_id_Some: "int_id c = Some n \<longleftrightarrow> getitem c ''id'' = Some (JInt n)"
  by (auto simp: int_id_def split: option.splits jvalue.splits)

lemma id_fields:
  "map Some ns = map int_id countries \<Longrightarrow>
     map (\<lambda>c. getitem c ''id'') countries = map (\<lambda>n. Some (JInt n)) ns"
proof (induction countries arbitrary: ns)
  case Nil
  then show ?case by simp
next
  case (Cons c cs)
  then obtain n ns' where ns: "ns = n # ns'" "int_id c = Some n" "map Some ns' = map int_id cs"
    by (cases ns) auto
  from ns(2) have "getitem c ''id'' = Some (JInt n)" by (simp add: int_id_Some)
  with Cons.IH [OF ns(3)] ns(1) show ?case by simp
qed

text \<open>
  C1. On a non-empty store of country records, a POST whose JSON object passes the
  schema and has exactly the member names \<open>name\<close>, \<open>capital\<close>, \<open>area\<close> is
  answered with 201. With \<open>ns\<close> the integers under \<open>"id"\<close> in the records
  of the store, in store order, the returned record is the payload with \<open>id\<close> set
  to the maximum of \<open>ns\<close> plus one, and it is appended at the end of the store.
  The witness is the example of the seed store and Germany (id 4, and
  GET /countries then lists four records ending with it), and the same request
  after the first record was deleted: two records are left and the id is again 4.
\<close>

theorem add_country_valid:
  assumes ok: "store_ok countries" and ne: "countries \<noteq> []"
    and p: "loads (JObj ms) = JObj payload"
    and sv: "schema_valid payload"
    and ks: "set (dict_keys payload) = {''name'', ''capital'', ''area''}"
  shows "\<exists>ns. map (\<lambda>c. getitem c ''id'') countries = map (\<lambda>n. Some (JInt n)) ns \<and>
           ns \<noteq> [] \<and>
           add_country countries (Json (JObj ms)) =
             (Response 201 (JObj (payload @ [(''id'', JInt (Max (set ns) + 1))])),
              countries @ [payload @ [(''id'', JInt (Max (set ns) + 1))]])"
proof -
  from ok have all: "list_all country_ok countries" by (simp add: store_ok_def)
  from find_next_id_ok [OF all ne] obtain ns where ns: "ns \<noteq> []"
    "map Some ns = map int_id countries"
    "find_next_id countries = Inr (Max (set ns) + 1)" by blast
  from ns(2) have f: "map (\<lambda>c. getitem c ''id'') countries = map (\<lambda>n. Some (JInt n)) ns"
    by (rule id_fields)
  from ks have ks': "set (dict_keys payload) = set expected_payload_attributes"
    by (simp add: expected_payload_attributes_def)
  have d: "distinct (dict_keys payload)" using p by (rule loads_JObj_keys [THEN conjunct2])
  have len: "length payload = 3" using d ks' by (rule payload_exact_length)
  have ck: "check_keys (map JStr (dict_keys payload)) = None"
    using ks' by (simp add: check_keys_None_iff)
  from ne obtain c0 cs where c: "countries = c0 # cs" by (cases countries) auto
  with all have "country_ok c0" by simp
  then have l0: "length (dict_keys c0) = 4" by (rule country_ok_length)
  from ks' id_not_expected have "''id'' \<notin> set (dict_keys payload)" by simp
  then have st: "setitem payload ''id'' (JInt (Max (set ns) + 1)) =
    payload @ [(''id'', JInt (Max (set ns) + 1))]" by (rule setitem_fresh)
  have "add_country countries (Json (JObj ms)) =
             (Response 201 (JObj (payload @ [(''id'', JInt (Max (set ns) + 1))])),
              countries @ [payload @ [(''id'', JInt (Max (set ns) + 1))]])"
    unfolding add_country_def using p sv ck len l0 ns(3) st by (simp add: c Let_def)
  with f ns(1) show ?thesis by blast
qed

theorem add_country_valid_witness:
  "store_ok countries0 \<and> countries0 \<noteq> [] \<and> loads (JObj germany) = JObj germany \<and>
   schema_valid germany \<and> set (dict_keys germany) = {''name'', ''capital'', ''area''} \<and>
   map (\<lambda>c. getitem c ''id'') countries0 = map (\<lambda>n. Some (JInt n)) [1, 2, 3] \<and>
   add_country countries0 (Json (JObj germany)) =
     (Response 201 (JObj (germany @ [(''id'', JInt 4)])),
      countries0 @ [germany @ [(''id'', JInt 4)]]) \<and>
   get_countries (snd (add_country countries0 (Json (JObj germany)))) =
     Response 200 (JArr (map JObj (countries0 @ [germany @ [(''id'', JInt 4)]]))) \<and>
   length (countries0 @ [germany @ [(''id'', JInt 4)]]) = 4 \<and>
   snd (delete_country countries0 (Some 1)) = tl countries0 \<and>
   map (\<lambda>c. getitem c ''id'') (tl countries0) = map (\<lambda>n. Some (JInt n)) [2, 3] \<and>
   add_country (tl countries0) (Json (JObj germany)) =
     (Response 201 (JObj (germany @ [(''id'', JInt 4)])),
      tl countries0 @ [germany @ [(''id'', JInt 4)]])"
proof -
  have ok: "store_ok countries0" by (simp add: store_ok_def country_ok_def eval_defs)
  have ne: "countries0 \<noteq> []" by (simp add: countries0_def)
  have p: "loads (JObj germany) = JObj germany" by (simp add: germany_def py_dict_def)
  have sv: "schema_valid germany" by (simp add: germany_def schema_valid_def getitem_def)
  have ks: "set (dict_keys germany) = {''name'', ''capital'', ''area''}"
    by (simp add: germany_def dict_keys_def)
  have i: "map (\<lambda>c. getitem c ''id'') countries0 = map (\<lambda>n. Some (JInt n)) [1, 2, 3]"
    by (simp add: countries0_def getitem_def)
  from add_country_valid [OF ok ne p sv ks] obtain ns where
    ns: "map (\<lambda>c. getitem c ''id'') countries0 = map (\<lambda>n. Some (JInt n)) ns"
    and a0: "add_country countries0 (Json (JObj germany)) =
     (Response 201 (JObj (germany @ [(''id'', JInt (Max (set ns) + 1))])),
      countries0 @ [germany @ [(''id'', JInt (Max (set ns) + 1))]])" by blast
  from ns i have "map (\<lambda>n. Some (JInt n)) ns = map (\<lambda>n. Some (JInt n)) [1, 2, 3]" by simp
  then have "ns = [1, 2, 3]" by (auto simp: map_eq_Cons_conv)
  with a0 have a: "add_country countries0 (Json (JObj germany)) =
     (Response 201 (JObj (germany @ [(''id'', JInt 4)])),
      countries0 @ [germany @ [(''id'', JInt 4)]])" by simp
  have l: "length (countries0 @ [germany @ [(''id'', JInt 4)]]) = 4"
    by (simp add: countries0_def)
  have del: "snd (delete_country countries0 (Some 1)) = tl countries0"
    by (simp add: eval_defs)
  have ok2: "store_ok (tl countries0)" by (simp add: store_ok_def country_ok_def eval_defs)
  have ne2: "tl countries0 \<noteq> []" by (simp add: countries0_def)
  have i2: "map (\<lambda>c. getitem c ''id'') (tl countries0) = map (\<lambda>n. Some (JInt n)) [2, 3]"
    by (simp add: countries0_def getitem_def)
  from add_country_valid [OF ok2 ne2 p sv ks] obtain ms where
    ms: "map (\<lambda>c. getitem c ''id'') (tl countries0) = map (\<lambda>n. Some (JInt n)) ms"
    and b0: "add_country (tl countries0) (Json (JObj germany)) =
     (Response 201 (JObj (germany @ [(''id'', JInt (Max (set ms) + 1))])),
      tl countries0 @ [germany @ [(''id'', JInt (Max (set ms) + 1))]])" by blast
  from ms i2 have "map (\<lambda>n. Some (JInt n)) ms = map (\<lambda>n. Some (JInt n)) [2, 3]" by simp
  then have "ms = [2, 3]" by (auto simp: map_eq_Cons_conv)
  with b0 have b: "add_country (tl countries0) (Json (JObj germany)) =
     (Response 201 (JObj (germany @ [(''id'', JInt 4)])),
      tl countries0 @ [germany @ [(''id'', JInt 4)]])" by simp
  from ok ne p sv ks i a l del i2 b show ?thesis by (simp add: get_countries_def)
qed

section \<open>The invariant of the store\<close>

lemma country_ok_expected_keys:
  "country_ok c \<Longrightarrow> set expected_payload_attributes \<subseteq> set (dict_keys c)"
  by (simp add: country_ok_def expected_payload_attributes_def)

lemma assign_all_ok:
  assumes it: "py_iter payload = Some ks" and ck: "check_keys ks = None"
    and a: "assign_all c payload = (e, c')" and ok: "country_ok c"
  shows "country_ok c' \<and> int_id c' = int_id c"
proof -
  have "dict_keys c' = dict_keys c \<and> getitem c' ''id'' = getitem c ''id''"
  proof (cases payload)
    case (JObj d)
    with it ck have sub: "set (dict_keys d) \<subseteq> set expected_payload_attributes"
      by (auto simp: check_keys_None_iff)
    with country_ok_expected_keys [OF ok] have s: "set (dict_keys d) \<subseteq> set (dict_keys c)" by blast
    from sub id_not_expected have n: "''id'' \<notin> set (dict_keys d)" by auto
    from a JObj have "assign_keys c d (dict_keys d) = (e, c')" by simp
    from assign_keys_frame [OF this s n] show ?thesis .
  next
    case (JArr xs)
    with a show ?thesis by (cases xs) auto
  next
    case (JStr s)
    with a show ?thesis by (cases s) auto
  qed (use a in auto)
  with ok show ?thesis by (simp add: country_ok_def int_id_def)
qed

lemma update_loop_ok:
  "update_loop countries parm_id payload = (r, countries') \<Longrightarrow>
   py_iter payload = Some ks \<Longrightarrow> check_keys ks = None \<Longrightarrow> list_all country_ok countries \<Longrightarrow>
     list_all country_ok countries' \<and> map int_id countries' = map int_id countries"
proof (induction countries parm_id payload arbitrary: r countries' rule: update_loop.induct)
  case (1 parm_id payload)
  then show ?case by simp
next
  case (2 country rest parm_id payload)
  from "2.prems"(4) have okc: "country_ok country" and okr: "list_all country_ok rest" by simp_all
  show ?case
  proof (cases "id_matches country parm_id")
    case (Inl e)
    with 2 show ?thesis by simp
  next
    case (Inr m)
    show ?thesis
    proof (cases m)
      case True
      obtain e c' where ac: "assign_all country payload = (e, c')"
        by (cases "assign_all country payload")
      from assign_all_ok [OF "2.prems"(2,3) ac okc]
      have c': "country_ok c'" "int_id c' = int_id country" by simp_all
      from "2.prems"(1) Inr True ac have "countries' = c' # rest"
        by (auto split: option.splits)
      with c' okr show ?thesis by simp
    next
      case False
      obtain r1 rest1 where rec: "update_loop rest parm_id payload = (r1, rest1)"
        by (cases "update_loop rest parm_id payload")
      with "2.prems"(1) Inr False have r: "countries' = country # rest1" by auto
      from False have mf: "m = False" by simp
      from "2.IH" [OF Inr mf rec "2.prems"(2,3) okr]
      have "list_all country_ok rest1 \<and> map int_id rest1 = map int_id rest" .
      with r okc show ?thesis by simp
    qed
  qed
qed

lemma delete_country_sublist:
  "delete_country countries parm_id = (r, countries') \<Longrightarrow>
     countries' = countries \<or> (\<exists>pre c post. countries = pre @ c # post \<and> countries' = pre @ post)"
proof (induction countries parm_id arbitrary: r countries' rule: delete_country.induct)
  case (1 parm_id)
  then show ?case by simp
next
  case (2 country rest parm_id)
  show ?case
  proof (cases "id_matches country parm_id")
    case (Inl e)
    with 2 show ?thesis by simp
  next
    case (Inr m)
    show ?thesis
    proof (cases m)
      case True
      with 2 Inr have "country # rest = [] @ country # rest \<and> countries' = [] @ rest" by auto
      then show ?thesis by blast
    next
      case False
      obtain r1 rest1 where rec: "delete_country rest parm_id = (r1, rest1)"
        by (cases "delete_country rest parm_id")
      with "2.prems" Inr False have r: "countries' = country # rest1" by auto
      from False have mf: "m = False" by simp
      from "2.IH" [OF Inr mf rec]
      consider "rest1 = rest" | pre c post where "rest = pre @ c # post" "rest1 = pre @ post"
        by blast
      then show ?thesis
      proof cases
        case 1
        with r show ?thesis by simp
      next
        case 2
        with r have "country # rest = (country # pre) @ c # post \<and>
          countries' = (country # pre) @ post" by simp
        then show ?thesis by blast
      qed
    qed
  qed
qed

lemma delete_country_ok:
  assumes "store_ok countries"
  shows "store_ok (snd (delete_country countries parm_id))"
proof -
  obtain r countries' where d: "delete_country countries parm_id = (r, countries')"
    by (cases "delete_country countries parm_id")
  from delete_country_sublist [OF d] assms have "store_ok countries'"
    by (auto simp: store_ok_def)
  with d show ?thesis by simp
qed

lemma put_country_ok:
  assumes "store_ok countries"
  shows "store_ok (snd (put_country countries parm_id b))"
proof -
  obtain r countries' where d: "put_country countries parm_id b = (r, countries')"
    by (cases "put_country countries parm_id b")
  from assms have all: "list_all country_ok countries" by (simp add: store_ok_def)
  have "countries' = countries \<or> (\<exists>payload ks. update_loop countries parm_id payload = (r, countries')
      \<and> py_iter payload = Some ks \<and> check_keys ks = None)"
    using d by (auto simp: put_country_def Let_def simp del: update_loop.simps
        split: body.splits option.splits list.splits if_splits)
  then have "store_ok countries'"
  proof
    assume "countries' = countries"
    with assms show ?thesis by simp
  next
    assume "\<exists>payload ks. update_loop countries parm_id payload = (r, countries')
      \<and> py_iter payload = Some ks \<and> check_keys ks = None"
    then obtain payload ks where "update_loop countries parm_id payload = (r, countries')"
      "py_iter payload = Some ks" "check_keys ks = None" by blast
    from update_loop_ok [OF this all] assms show ?thesis by (simp add: store_ok_def)
  qed
  with d show ?thesis by simp
qed

lemma patch_country_ok:
  assumes "store_ok countries"
  shows "store_ok (snd (patch_country countries parm_id b))"
proof -
  obtain r countries' where d: "patch_country countries parm_id b = (r, countries')"
    by (cases "patch_country countries parm_id b")
  from assms have all: "list_all country_ok countries" by (simp add: store_ok_def)
  have "countries' = countries \<or> (\<exists>payload ks. update_loop countries parm_id payload = (r, countries')
      \<and> py_iter payload = Some ks \<and> check_keys ks = None)"
    using d by (auto simp: patch_country_def Let_def simp del: update_loop.simps
        split: body.splits option.splits list.splits if_splits)
  then have "store_ok countries'"
  proof
    assume "countries' = countries"
    with assms show ?thesis by simp
  next
    assume "\<exists>payload ks. update_loop countries parm_id payload = (r, countries')
      \<and> py_iter payload = Some ks \<and> check_keys ks = None"
    then obtain payload ks where "update_loop countries parm_id payload = (r, countries')"
      "py_iter payload = Some ks" "check_keys ks = None" by blast
    from update_loop_ok [OF this all] assms show ?thesis by (simp add: store_ok_def)
  qed
  with d show ?thesis by simp
qed

text \<open>What a 201 of add_country means.\<close>

lemma add_country_created:
  assumes "add_country countries b = (Response 201 x, countries')"
  shows "\<exists>doc payload c0 cs n.
           b = Json doc \<and> loads doc = JObj payload \<and> schema_valid payload \<and>
           check_keys (map JStr (dict_keys payload)) = None \<and>
           countries = c0 # cs \<and> length payload + 1 = length (dict_keys c0) \<and>
           find_next_id countries = Inr n \<and>
           x = JObj (setitem payload ''id'' (JInt n)) \<and>
           countries' = countries @ [setitem payload ''id'' (JInt n)]"
  using assms
  by (auto simp: add_country_def Let_def dest: check_keys_Some
      split: body.splits jvalue.splits if_splits option.splits list.splits sum.splits)

lemma keys_of_accepted:
  assumes d: "distinct (dict_keys payload)"
    and ck: "check_keys (map JStr (dict_keys payload)) = None"
    and len: "length (dict_keys payload) + 1 = length (dict_keys c0)"
    and c0: "country_ok c0"
  shows "set (dict_keys payload) = set expected_payload_attributes"
proof -
  from c0 have "length (dict_keys c0) = 4" by (rule country_ok_length)
  with len have "length (dict_keys payload) = 3" by simp
  moreover from ck have "set (dict_keys payload) \<subseteq> set expected_payload_attributes"
    by (simp add: check_keys_None_iff)
  ultimately show ?thesis using d by (intro keys_exact)
qed

lemma loads_dict_distinct: "loads doc = JObj payload \<Longrightarrow> distinct (dict_keys payload)"
proof (cases doc)
  case (JObj ms)
  assume "loads doc = JObj payload"
  with JObj have "loads (JObj ms) = JObj payload" by simp
  then show ?thesis by (rule loads_JObj_keys [THEN conjunct2])
qed auto

lemma Max_plus_one_fresh:
  assumes "map Some ns = map int_id countries" "ns \<noteq> []"
  shows "Some (Max (set ns) + 1) \<notin> set (map int_id countries)"
proof
  assume "Some (Max (set ns) + 1) \<in> set (map int_id countries)"
  with assms(1) have "Some (Max (set ns) + 1) \<in> set (map Some ns)" by simp
  then have "Max (set ns) + 1 \<in> set ns" by auto
  then have "Max (set ns) + 1 \<le> Max (set ns)" by (intro Max_ge) simp_all
  then show False by simp
qed

lemma add_country_ok:
  assumes ok: "store_ok countries"
  shows "store_ok (snd (add_country countries b))"
proof (cases "\<exists>x. fst (add_country countries b) = Response 201 x")
  case False
  obtain r countries' where a: "add_country countries b = (r, countries')"
    by (cases "add_country countries b")
  with False have "\<forall>x. r \<noteq> Response 201 x" by simp
  with a have "countries' = countries" by (rule add_country_unchanged)
  with a ok show ?thesis by simp
next
  case True
  then obtain x countries' where a: "add_country countries b = (Response 201 x, countries')"
    by (cases "add_country countries b") auto
  from add_country_created [OF a] obtain doc payload c0 cs n where
    h: "loads doc = JObj payload"
      "check_keys (map JStr (dict_keys payload)) = None"
      "countries = c0 # cs" "length payload + 1 = length (dict_keys c0)"
      "find_next_id countries = Inr n"
      "countries' = countries @ [setitem payload ''id'' (JInt n)]"
    by blast
  from ok have all: "list_all country_ok countries" and dist: "distinct (map int_id countries)"
    by (simp_all add: store_ok_def)
  from all h(3) have c0: "country_ok c0" by simp
  have d: "distinct (dict_keys payload)" using h(1) by (rule loads_dict_distinct)
  from h(4) have "length (dict_keys payload) + 1 = length (dict_keys c0)"
    by (simp add: dict_keys_def)
  from keys_of_accepted [OF d h(2) this c0]
  have ks: "set (dict_keys payload) = set expected_payload_attributes" .
  let ?c = "setitem payload ''id'' (JInt n)"
  have "distinct (dict_keys ?c)" using d by (rule distinct_keys_setitem)
  moreover have "set (dict_keys ?c) = {''id'', ''name'', ''capital'', ''area''}"
    by (simp add: set_keys_setitem ks) (simp add: expected_payload_attributes_def)
  moreover have id: "int_id ?c = Some n" by (simp add: int_id_def getitem_setitem)
  ultimately have okc: "country_ok ?c" by (simp add: country_ok_def)
  from h(3) have "countries \<noteq> []" by simp
  from find_next_id_ok [OF all this] h(5) obtain ns where
    ns: "ns \<noteq> []" "map Some ns = map int_id countries" "n = Max (set ns) + 1" by auto
  from Max_plus_one_fresh [OF ns(2) ns(1)] ns(3)
  have "Some n \<notin> set (map int_id countries)" by simp
  with all dist okc id h(6) have "store_ok countries'" by (simp add: store_ok_def)
  with a show ?thesis by simp
qed

lemma handle_ok:
  assumes "store_ok countries"
  shows "store_ok (snd (handle countries req))"
  using assms
  by (cases req) (simp_all add: add_country_ok put_country_ok patch_country_ok delete_country_ok)

lemma run_ok: "store_ok countries \<Longrightarrow> store_ok (run countries reqs)"
  by (induction reqs arbitrary: countries) (simp_all add: handle_ok)

lemma store_ok_countries0: "store_ok countries0"
  by (simp add: store_ok_def country_ok_def eval_defs)

text \<open>Every store the program can be in satisfies the invariant.\<close>

lemma reachable_store_ok: "store_ok (run countries0 reqs)"
  using store_ok_countries0 by (rule run_ok)

lemma add_country_with_id:
  assumes p: "loads (JObj ms) = JObj payload" and k: "''id'' \<in> set (map fst ms)"
  shows "add_country countries (Json (JObj ms)) =
           (if schema_valid payload then Abort 422 else AbortError 400, countries)"
proof -
  from p have "set (dict_keys payload) = set (map fst ms)" by (rule loads_JObj_keys [THEN conjunct1])
  with k id_not_expected have "\<not> set (dict_keys payload) \<subseteq> set expected_payload_attributes"
    by auto
  then have "check_keys (map JStr (dict_keys payload)) \<noteq> None"
    by (simp add: check_keys_None_iff)
  then have "check_keys (map JStr (dict_keys payload)) = Some (Abort 422)"
    using check_keys_cases [of "map JStr (dict_keys payload)"] by auto
  with p show ?thesis by (simp add: add_country_def)
qed

text \<open>
  C2 (amended). Every request keeps the store a list of country records with
  pairwise different integer ids. A POST whose object has a member \<open>id\<close> never
  changes the store: when the payload passes the schema of the decorator, the key
  loop aborts with 422; when it does not, the decorator has aborted the request
  before the handler's body runs. The id of a created record is the allocator's:
  the maximum of the integers under \<open>"id"\<close> in the store plus one.
\<close>

theorem ids_stay_unique:
  assumes ok: "store_ok countries"
  shows "store_ok (snd (handle countries req)) \<and>
         (\<forall>ms payload. ''id'' \<in> set (map fst ms) \<longrightarrow> loads (JObj ms) = JObj payload \<longrightarrow>
            add_country countries (Json (JObj ms)) =
              (if schema_valid payload then Abort 422 else AbortError 400, countries)) \<and>
         (\<forall>b x countries'. add_country countries b = (Response 201 x, countries') \<longrightarrow>
            (\<exists>ns c. map (\<lambda>c. getitem c ''id'') countries = map (\<lambda>n. Some (JInt n)) ns \<and>
               ns \<noteq> [] \<and> countries' = countries @ [c] \<and>
               x = JObj c \<and> getitem c ''id'' = Some (JInt (Max (set ns) + 1))))"
proof (intro conjI allI impI)
  show "store_ok (snd (handle countries req))" using ok by (rule handle_ok)
next
  fix ms payload
  assume "''id'' \<in> set (map fst ms)" "loads (JObj ms) = JObj payload"
  then show "add_country countries (Json (JObj ms)) =
              (if schema_valid payload then Abort 422 else AbortError 400, countries)"
    by (intro add_country_with_id)
next
  fix b x countries'
  assume a: "add_country countries b = (Response 201 x, countries')"
  from add_country_created [OF a] obtain payload c0 cs n where
    h: "countries = c0 # cs" "find_next_id countries = Inr n"
       "x = JObj (setitem payload ''id'' (JInt n))"
      "countries' = countries @ [setitem payload ''id'' (JInt n)]"
    by blast
  from ok have all: "list_all country_ok countries" by (simp add: store_ok_def)
  from h(1) have "countries \<noteq> []" by simp
  from find_next_id_ok [OF all this] h(2) obtain ns where
    ns: "map Some ns = map int_id countries" "ns \<noteq> []" "n = Max (set ns) + 1" by auto
  from ns(1) have f: "map (\<lambda>c. getitem c ''id'') countries = map (\<lambda>n. Some (JInt n)) ns"
    by (rule id_fields)
  have "getitem (setitem payload ''id'' (JInt n)) ''id'' = Some (JInt n)"
    by (simp add: getitem_setitem)
  with h ns f show "\<exists>ns c. map (\<lambda>c. getitem c ''id'') countries = map (\<lambda>n. Some (JInt n)) ns \<and>
               ns \<noteq> [] \<and> countries' = countries @ [c] \<and>
               x = JObj c \<and> getitem c ''id'' = Some (JInt (Max (set ns) + 1))"
    by blast
qed

theorem ids_stay_unique_witness:
  "store_ok countries0 \<and>
   store_ok (snd (handle countries0 (POST_countries (Json (JObj germany))))) \<and>
   add_country countries0
     (Json (JObj [(''id'', JInt 7), (''name'', JStr ''X''), (''capital'', JStr ''Y'')])) =
     (Abort 422, countries0) \<and>
   snd (add_country countries0 (Json (JObj [(''id'', JInt 7)]))) = countries0 \<and>
   getitem (last (snd (add_country countries0 (Json (JObj germany))))) ''id'' = Some (JInt 4)"
proof -
  have ok: "store_ok countries0" by (simp add: store_ok_def country_ok_def eval_defs)
  note t = ids_stay_unique [OF ok, of "POST_countries (Json (JObj germany))"]
  from t have 1: "store_ok (snd (handle countries0 (POST_countries (Json (JObj germany)))))"
    by blast
  have p: "loads (JObj [(''id'', JInt 7), (''name'', JStr ''X''), (''capital'', JStr ''Y'')]) =
     JObj [(''id'', JInt 7), (''name'', JStr ''X''), (''capital'', JStr ''Y'')]"
    by (simp add: py_dict_def)
  have sv: "schema_valid [(''id'', JInt 7), (''name'', JStr ''X''), (''capital'', JStr ''Y'')]"
    by (simp add: schema_valid_def getitem_def)
  from t p sv have 2: "add_country countries0
     (Json (JObj [(''id'', JInt 7), (''name'', JStr ''X''), (''capital'', JStr ''Y'')])) =
     (Abort 422, countries0)" by simp
  have q: "loads (JObj [(''id'', JInt 7)]) = JObj [(''id'', JInt 7)]" by (simp add: py_dict_def)
  from t q have 3: "snd (add_country countries0 (Json (JObj [(''id'', JInt 7)]))) = countries0"
    by simp
  have 4: "getitem (last (snd (add_country countries0 (Json (JObj germany))))) ''id'' =
    Some (JInt 4)"
    by (simp add: eval_defs)
  from ok 1 2 3 4 show ?thesis by simp
qed

text \<open>
  C2 as stated fails: POST of \<open>{"id": 7}\<close> is not answered with 422. The schema
  requires \<open>name\<close> and \<open>capital\<close>, so the decorator aborts before the key loop
  is reached, and the reply that \<open>handle_exception\<close> makes of that abort has
  status 500.
\<close>

theorem post_with_id_counterexample:
  "''id'' \<in> set (map fst [(''id'', JInt 7)]) \<and>
   add_country countries0 (Json (JObj [(''id'', JInt 7)])) = (AbortError 400, countries0) \<and>
   status (fst (add_country countries0 (Json (JObj [(''id'', JInt 7)])))) = 500 \<and>
   status (fst (add_country countries0 (Json (JObj [(''id'', JInt 7)])))) \<noteq> 422"
  by (simp add: eval_defs)

section \<open>What the count check accepts\<close>

lemma check_keys_None_all:
  "check_keys ks = None \<longleftrightarrow> set ks \<subseteq> JStr ` set expected_payload_attributes"
  by (induction ks) auto

lemma expected_names:
  "JStr ` set expected_payload_attributes = JStr ` {''name'', ''capital'', ''area''}"
  by (simp add: expected_payload_attributes_def)

lemma distinct_items_exact:
  assumes "distinct ks" "check_keys ks = None" "length ks = 3"
  shows "set ks = JStr ` {''name'', ''capital'', ''area''}"
proof -
  have sub: "set ks \<subseteq> JStr ` set expected_payload_attributes"
    using assms(2) by (simp add: check_keys_None_all)
  have "card (set ks) = 3" using assms(1,3) by (simp add: distinct_card)
  moreover have "card (JStr ` set expected_payload_attributes) = 3"
    by (simp add: expected_payload_attributes_def)
  ultimately have "set ks = JStr ` set expected_payload_attributes"
    using sub by (intro card_subset_eq) simp_all
  then show ?thesis by (simp only: expected_names)
qed

text \<open>With a non-empty store, a PUT that is answered neither 422 nor 400 passed both checks.\<close>

lemma put_country_passed:
  assumes it: "py_iter (loads doc) = Some ks"
    and st: "status (fst (put_country (c0 # cs) parm_id (Json doc))) \<notin> {400, 422}"
  shows "check_keys ks = None \<and> length ks + 1 = length (dict_keys c0)"
proof (cases "check_keys ks")
  case (Some a)
  then have "a = Abort 422" by (rule check_keys_Some)
  with Some it st show ?thesis by (simp add: put_country_def)
next
  case None
  with it st show ?thesis
    by (cases "length ks + 1 = length (dict_keys c0)")
      (simp_all add: put_country_def del: update_loop.simps)
qed

lemma put_distinct_exact:
  assumes ok: "store_ok countries" and ne: "countries \<noteq> []"
    and it: "py_iter (loads doc) = Some ks" and d: "distinct ks"
    and st: "status (fst (put_country countries parm_id (Json doc))) \<notin> {400, 422}"
  shows "set ks = JStr ` {''name'', ''capital'', ''area''}"
proof -
  from ne obtain c0 cs where c: "countries = c0 # cs" by (cases countries) auto
  with ok have "country_ok c0" by (simp add: store_ok_def)
  then have l0: "length (dict_keys c0) = 4" by (rule country_ok_length)
  from st c have "status (fst (put_country (c0 # cs) parm_id (Json doc))) \<notin> {400, 422}"
    by simp
  from put_country_passed [OF it this] l0 have "check_keys ks = None" "length ks = 3"
    by simp_all
  with d show ?thesis by (intro distinct_items_exact)
qed

lemma status_201_created:
  assumes "status (fst (add_country countries b)) = 201"
  shows "\<exists>x countries'. add_country countries b = (Response 201 x, countries')"
proof (cases "add_country countries b")
  case (Pair r countries')
  with assms have "status r = 201" by simp
  moreover from Pair have "(\<exists>x. r = Response 201 x) \<or> r \<in> {Abort 415, Abort 400, Abort 422,
      AbortError 400} \<or> (\<exists>e. r = Fault e)"
    by (auto simp: add_country_def Let_def dest: check_keys_Some
        split: body.splits jvalue.splits if_splits option.splits list.splits sum.splits)
  ultimately have "\<exists>x. r = Response 201 x" by auto
  with Pair show ?thesis by simp
qed

lemma add_exact:
  assumes ok: "store_ok countries"
    and it: "py_iter (loads doc) = Some ks"
    and st: "status (fst (add_country countries (Json doc))) = 201"
  shows "distinct ks \<and> set ks = JStr ` {''name'', ''capital'', ''area''}"
proof -
  from status_201_created [OF st] obtain x countries' where
    a: "add_country countries (Json doc) = (Response 201 x, countries')" by blast
  from add_country_created [OF a] obtain payload c0 cs where
    h: "loads doc = JObj payload" "check_keys (map JStr (dict_keys payload)) = None"
      "countries = c0 # cs" "length payload + 1 = length (dict_keys c0)"
    by auto
  from ok h(3) have "country_ok c0" by (simp add: store_ok_def)
  then have "length (dict_keys c0) = 4" by (rule country_ok_length)
  with h(4) have l: "length (map JStr (dict_keys payload)) = 3" by (simp add: dict_keys_def)
  from it h(1) have ks: "ks = map JStr (dict_keys payload)" by simp
  have "distinct (dict_keys payload)" using h(1) by (rule loads_dict_distinct)
  then have d: "distinct ks" unfolding ks by (simp add: distinct_map inj_on_def)
  from d h(2) l have "set ks = JStr ` {''name'', ''capital'', ''area''}"
    unfolding ks by (intro distinct_items_exact)
  with d show ?thesis by simp
qed

text \<open>
  PUT has no schema, so its payload may be a JSON array or string; such a payload can
  pass both checks, but the update then raises TypeError. On a store of country
  records a 200 of PUT therefore means that the payload was an object with exactly
  the three expected keys.
\<close>

lemma update_loop_200_assign:
  "update_loop countries parm_id payload = (Response 200 x, countries') \<Longrightarrow>
     \<exists>c c'. assign_all c payload = (None, c')"
proof (induction countries parm_id payload arbitrary: countries' rule: update_loop.induct)
  case (1 parm_id payload)
  then show ?case by simp
next
  case (2 country rest parm_id payload)
  show ?case
  proof (cases "id_matches country parm_id")
    case (Inl e)
    with 2 show ?thesis by simp
  next
    case (Inr m)
    show ?thesis
    proof (cases m)
      case True
      obtain e c' where ac: "assign_all country payload = (e, c')"
        by (cases "assign_all country payload")
      with "2.prems" Inr True have "e = None" by (auto split: option.splits)
      with ac show ?thesis by blast
    next
      case False
      obtain r1 rest1 where rec: "update_loop rest parm_id payload = (r1, rest1)"
        by (cases "update_loop rest parm_id payload")
      with "2.prems" Inr False have "r1 = Response 200 x" by auto
      from False have mf: "m = False" by simp
      from "2.IH" [OF Inr mf, of rest1] rec \<open>r1 = Response 200 x\<close> show ?thesis by simp
    qed
  qed
qed

lemma put_country_200_object:
  assumes ok: "store_ok countries"
    and put: "put_country countries parm_id (Json doc) = (Response 200 x, countries')"
  shows "\<exists>payload. loads doc = JObj payload \<and>
           set (dict_keys payload) = {''name'', ''capital'', ''area''}"
proof -
  from put obtain ks c0 cs where
    it: "py_iter (loads doc) = Some ks" and ck: "check_keys ks = None"
    and c: "countries = c0 # cs" and len: "length ks + 1 = length (dict_keys c0)"
    and ul: "update_loop countries parm_id (loads doc) = (Response 200 x, countries')"
    by (auto simp: put_country_def Let_def simp del: update_loop.simps
        dest: check_keys_Some split: option.splits list.splits if_splits)
  from ok c have c0: "country_ok c0" by (simp add: store_ok_def)
  then have "length (dict_keys c0) = 4" by (rule country_ok_length)
  with len have l3: "length ks = 3" by simp
  from update_loop_200_assign [OF ul] obtain c c' where a: "assign_all c (loads doc) = (None, c')"
    by blast
  show ?thesis
  proof (cases "loads doc")
    case (JObj payload)
    have d: "distinct (dict_keys payload)" using JObj by (rule loads_dict_distinct)
    from it JObj have ks: "ks = map JStr (dict_keys payload)" by simp
    with ck have 1: "check_keys (map JStr (dict_keys payload)) = None" by simp
    from ks len have 2: "length (dict_keys payload) + 1 = length (dict_keys c0)" by simp
    from keys_of_accepted [OF d 1 2 c0] JObj show ?thesis
      by (simp add: expected_payload_attributes_def)
  next
    case (JArr xs)
    with it l3 have "xs \<noteq> []" by auto
    with a JArr show ?thesis by (cases xs) auto
  next
    case (JStr s)
    with it l3 have "s \<noteq> []" by auto
    with a JStr show ?thesis by (cases s) auto
  qed (use it in auto)
qed

lemma update_loop_outcome:
  "(\<exists>x. fst (update_loop countries parm_id payload) = Response 200 x) \<or>
   fst (update_loop countries parm_id payload) = Abort 404 \<or>
   (\<exists>e. fst (update_loop countries parm_id payload) = Fault e)"
proof (induction countries parm_id payload rule: update_loop.induct)
  case (1 parm_id payload)
  show ?case by simp
next
  case (2 country rest parm_id payload)
  then show ?case
    by (auto split: sum.splits bool.splits prod.splits option.splits)
qed

lemma put_array_passes:
  assumes ok: "store_ok countries" and ne: "countries \<noteq> []"
  shows "status (fst (put_country countries parm_id
            (Json (JArr [JStr ''name'', JStr ''name'', JStr ''capital''])))) \<in> {404, 500} \<and>
         snd (put_country countries parm_id
            (Json (JArr [JStr ''name'', JStr ''name'', JStr ''capital'']))) = countries"
proof -
  let ?doc = "JArr [JStr ''name'', JStr ''name'', JStr ''capital'']"
  from ne obtain c0 cs where c: "countries = c0 # cs" by (cases countries) auto
  with ok have "country_ok c0" by (simp add: store_ok_def)
  then have l0: "length (dict_keys c0) = 4" by (rule country_ok_length)
  have eq: "put_country countries parm_id (Json ?doc) = update_loop countries parm_id ?doc"
    using l0 by (simp add: put_country_def c expected_payload_attributes_def
        del: update_loop.simps)
  obtain r countries' where u: "update_loop countries parm_id ?doc = (r, countries')"
    by (cases "update_loop countries parm_id ?doc")
  have no: "\<forall>x. r \<noteq> Response 200 x"
  proof (intro allI notI)
    fix x assume "r = Response 200 x"
    with u have "update_loop countries parm_id ?doc = (Response 200 x, countries')" by simp
    from update_loop_200_assign [OF this] show False by simp
  qed
  with u have same: "countries' = countries" by (rule update_loop_unchanged)
  from update_loop_outcome [of countries parm_id ?doc] u no
  have "r = Abort 404 \<or> (\<exists>e. r = Fault e)" by simp
  then have "status r \<in> {404, 500}" by auto
  with eq u same show ?thesis by simp
qed

text \<open>
  C3 (amended). On a non-empty store of country records the count-based validation
  is exact wherever the keys of the payload are pairwise different: a payload that
  POST creates a record from has pairwise different keys and they are \<open>name\<close>,
  \<open>capital\<close>, \<open>area\<close>; a payload of PUT with pairwise different keys that passes
  the key loop and the count check (the reply is neither 422 nor 400) has exactly
  these keys; the keys of a JSON object are always pairwise different, so an object
  that passes has exactly these member names. The checks of PUT are loose only for
  a body that is not an object: the array \<open>["name", "name", "capital"]\<close> passes
  both, the reply is then 404 or 500 and the store is unchanged, and a 200 of PUT
  always means an object with exactly the three keys.
\<close>

theorem validation_exact_keys:
  assumes "store_ok countries" and "countries \<noteq> []"
  shows "(\<forall>doc ks. py_iter (loads doc) = Some ks \<longrightarrow>
            status (fst (add_country countries (Json doc))) = 201 \<longrightarrow>
            distinct ks \<and> set ks = JStr ` {''name'', ''capital'', ''area''}) \<and>
         (\<forall>doc ks. py_iter (loads doc) = Some ks \<longrightarrow> distinct ks \<longrightarrow>
            status (fst (put_country countries parm_id (Json doc))) \<notin> {400, 422} \<longrightarrow>
            set ks = JStr ` {''name'', ''capital'', ''area''}) \<and>
         (\<forall>ms. status (fst (put_country countries parm_id (Json (JObj ms)))) \<notin> {400, 422} \<longrightarrow>
            set (map fst ms) = {''name'', ''capital'', ''area''}) \<and>
         status (fst (put_country countries parm_id
            (Json (JArr [JStr ''name'', JStr ''name'', JStr ''capital''])))) \<in> {404, 500} \<and>
         snd (put_country countries parm_id
            (Json (JArr [JStr ''name'', JStr ''name'', JStr ''capital'']))) = countries \<and>
         (\<forall>doc x countries'.
            put_country countries parm_id (Json doc) = (Response 200 x, countries') \<longrightarrow>
            (\<exists>payload. loads doc = JObj payload \<and>
               set (dict_keys payload) = {''name'', ''capital'', ''area''}))"
proof (intro conjI allI impI)
  fix doc ks
  assume "py_iter (loads doc) = Some ks"
    "status (fst (add_country countries (Json doc))) = 201"
  from add_exact [OF assms(1) this]
  show "distinct ks" "set ks = JStr ` {''name'', ''capital'', ''area''}" by simp_all
next
  fix doc ks
  assume "py_iter (loads doc) = Some ks" "distinct ks"
    "status (fst (put_country countries parm_id (Json doc))) \<notin> {400, 422}"
  with assms show "set ks = JStr ` {''name'', ''capital'', ''area''}"
    by (intro put_distinct_exact)
next
  fix ms
  assume st: "status (fst (put_country countries parm_id (Json (JObj ms)))) \<notin> {400, 422}"
  obtain payload where p: "loads (JObj ms) = JObj payload" by simp
  then have keys: "set (dict_keys payload) = set (map fst ms)"
    and d: "distinct (dict_keys payload)"
    by (simp_all only: loads_JObj_keys)
  from p have it: "py_iter (loads (JObj ms)) = Some (map JStr (dict_keys payload))" by simp
  from d have "distinct (map JStr (dict_keys payload))" by (simp add: distinct_map inj_on_def)
  from put_distinct_exact [OF assms it this st]
  have im: "JStr ` set (dict_keys payload) = JStr ` {''name'', ''capital'', ''area''}" by simp
  have inj: "inj JStr" by (simp add: inj_on_def)
  from inj_image_eq_iff [OF inj, THEN iffD1, OF im]
  have "set (dict_keys payload) = {''name'', ''capital'', ''area''}" .
  with keys show "set (map fst ms) = {''name'', ''capital'', ''area''}" by simp
next
  from put_array_passes [OF assms, of parm_id]
  show "status (fst (put_country countries parm_id
            (Json (JArr [JStr ''name'', JStr ''name'', JStr ''capital''])))) \<in> {404, 500}"
    "snd (put_country countries parm_id
            (Json (JArr [JStr ''name'', JStr ''name'', JStr ''capital'']))) = countries"
    by simp_all
next
  fix doc x countries'
  assume "put_country countries parm_id (Json doc) = (Response 200 x, countries')"
  with assms(1) show "\<exists>payload. loads doc = JObj payload \<and>
               set (dict_keys payload) = {''name'', ''capital'', ''area''}"
    by (rule put_country_200_object)
qed

theorem validation_exact_keys_witness:
  "store_ok countries0 \<and> countries0 \<noteq> [] \<and>
   py_iter (loads (JObj germany)) = Some [JStr ''name'', JStr ''capital'', JStr ''area''] \<and>
   status (fst (add_country countries0 (Json (JObj germany)))) = 201 \<and>
   status (fst (put_country countries0 (Some 2) (Json (JObj germany)))) = 200 \<and>
   set (map fst germany) = {''name'', ''capital'', ''area''} \<and>
   check_keys [JStr ''name'', JStr ''name'', JStr ''capital''] = None \<and>
   put_country countries0 (Some 2) (Json (JArr [JStr ''name'', JStr ''name'', JStr ''capital'']))
     = (Fault TypeError, countries0) \<and>
   snd (put_country countries0 (Some 2)
     (Json (JArr [JStr ''name'', JStr ''name'', JStr ''capital'']))) = countries0"
proof -
  have ok: "store_ok countries0" by (simp add: store_ok_def country_ok_def eval_defs)
  have ne: "countries0 \<noteq> []" by (simp add: countries0_def)
  note t = validation_exact_keys [OF ok ne, of "Some 2"]
  have it: "py_iter (loads (JObj germany)) = Some [JStr ''name'', JStr ''capital'', JStr ''area'']"
    by (simp add: eval_defs)
  have a: "status (fst (add_country countries0 (Json (JObj germany)))) = 201"
    by (simp add: eval_defs)
  have s: "status (fst (put_country countries0 (Some 2) (Json (JObj germany)))) = 200"
    by (simp add: eval_defs)
  from t s have k: "set (map fst germany) = {''name'', ''capital'', ''area''}" by simp
  have c: "check_keys [JStr ''name'', JStr ''name'', JStr ''capital''] = None"
    by (simp add: expected_payload_attributes_def)
  have f: "put_country countries0 (Some 2)
      (Json (JArr [JStr ''name'', JStr ''name'', JStr ''capital''])) = (Fault TypeError, countries0)"
    by (simp add: eval_defs)
  from t have u: "snd (put_country countries0 (Some 2)
     (Json (JArr [JStr ''name'', JStr ''name'', JStr ''capital'']))) = countries0" by blast
  from ok ne it a s k c f u show ?thesis by simp
qed

text \<open>
  C3 as stated fails. It speaks of POST and PUT and of a payload with 3 distinct
  recognized keys. On the seed store no JSON body at all is accepted by POST with a
  set of keys other than \<open>name\<close>, \<open>capital\<close>, \<open>area\<close>, and no JSON body with
  pairwise different keys passes the two checks of PUT with another set of keys.
\<close>

theorem count_check_loose_counterexample:
  "\<not> (\<exists>doc ks. py_iter (loads doc) = Some ks \<and>
         status (fst (add_country countries0 (Json doc))) = 201 \<and>
         set ks \<noteq> JStr ` {''name'', ''capital'', ''area''}) \<and>
   \<not> (\<exists>doc parm_id ks. py_iter (loads doc) = Some ks \<and> distinct ks \<and>
         status (fst (put_country countries0 parm_id (Json doc))) \<notin> {400, 422} \<and>
         set ks \<noteq> JStr ` {''name'', ''capital'', ''area''})"
proof -
  have ne: "countries0 \<noteq> []" by (simp add: countries0_def)
  have "\<And>doc ks. py_iter (loads doc) = Some ks \<Longrightarrow>
         status (fst (add_country countries0 (Json doc))) = 201 \<Longrightarrow>
         set ks = JStr ` {''name'', ''capital'', ''area''}"
    using add_exact [OF store_ok_countries0] by blast
  moreover have "\<And>doc parm_id ks. py_iter (loads doc) = Some ks \<Longrightarrow> distinct ks \<Longrightarrow>
         status (fst (put_country countries0 parm_id (Json doc))) \<notin> {400, 422} \<Longrightarrow>
         set ks = JStr ` {''name'', ''capital'', ''area''}"
    using put_distinct_exact [OF store_ok_countries0 ne] by blast
  ultimately show ?thesis by blast
qed

text \<open>
  Two bodies that repeat a member name. With three members the decoded dict has two
  keys and fails the count check; with four members it has three keys and is accepted.
\<close>

lemma put_repeated_member_400:
  "put_country countries0 (Some 2)
     (Json (JObj [(''name'', JStr ''A''), (''name'', JStr ''B''), (''capital'', JStr ''C'')])) =
     (Abort 400, countries0)"
  by (simp add: eval_defs)

lemma put_repeated_member_200:
  "fst (put_country countries0 (Some 2)
     (Json (JObj [(''name'', JStr ''A''), (''name'', JStr ''B''), (''capital'', JStr ''C''),
        (''area'', JInt 1)]))) =
     Response 200 (JObj [(''id'', JInt 2), (''name'', JStr ''B''), (''capital'', JStr ''C''),
        (''area'', JInt 1)])"
  by (simp add: eval_defs)

text \<open>
  C6 fails on the empty store, which three DELETE requests reach from the seed
  store: PUT of \<open>{"name": "X"}\<close>, one recognized field, passes the key loop and then
  \<open>countries[0]\<close> raises IndexError, so the reply is 500 and not 400.
\<close>

theorem put_short_payload_empty_store:
  "run countries0 [DELETE_country (Some 1), DELETE_country (Some 2), DELETE_country (Some 3)] = [] \<and>
   check_keys (map JStr (dict_keys [(''name'', JStr ''X'')])) = None \<and>
   put_country [] (Some 1) (Json (JObj [(''name'', JStr ''X'')])) = (Fault IndexError, []) \<and>
   status (fst (put_country [] (Some 1) (Json (JObj [(''name'', JStr ''X'')])))) = 500"
  by (simp add: eval_defs)

lemma put_short_payload_400:
  assumes ok: "store_ok countries" and ne: "countries \<noteq> []"
    and p: "loads (JObj ms) = JObj payload"
    and ck: "set (map fst ms) \<subseteq> set expected_payload_attributes"
    and len: "length payload < 3"
  shows "put_country countries parm_id (Json (JObj ms)) = (Abort 400, countries)"
proof -
  from p have "set (dict_keys payload) = set (map fst ms)" by (simp only: loads_JObj_keys)
  with ck have c: "check_keys (map JStr (dict_keys payload)) = None"
    by (simp add: check_keys_None_iff)
  from ne obtain c0 cs where cs: "countries = c0 # cs" by (cases countries) auto
  with ok have "country_ok c0" by (simp add: store_ok_def)
  then have "length (dict_keys c0) = 4" by (rule country_ok_length)
  with len have "length (dict_keys payload) + 1 \<noteq> length (dict_keys c0)"
    by (simp add: dict_keys_def)
  with p c cs show ?thesis by (simp add: put_country_def del: update_loop.simps)
qed

section \<open>GET /country\<close>


text \<open>
  C9. On every store with at least two records, GET /country answers 200 with the
  record at index 1; the handler takes no argument but the store.
\<close>

theorem get_country_second:
  "2 \<le> length countries \<Longrightarrow> get_country countries = Response 200 (JObj (countries ! 1))"
  by (cases countries rule: get_country.cases) simp_all

theorem get_country_second_witness:
  "2 \<le> length countries0 \<and>
   get_country countries0 =
     Response 200 (JObj [(''id'', JInt 2), (''name'', JStr ''Australia''),
       (''capital'', JStr ''Canberra''), (''area'', JInt 7617930)])"
  using get_country_second [of countries0] by (simp add: countries0_def)

end
